theory Spec2Isabelle
  imports Main
begin

section \<open>Data model\<close>

text \<open>
  Go strings are byte sequences; they are modelled as \<^typ>\<open>string\<close> (lists of 8-bit
  characters). A Go \<^verbatim>\<open>error\<close> is modelled by its message: \<^typ>\<open>string option\<close> where the
  source returns only an error (\<open>None\<close> is \<^verbatim>\<open>nil\<close>), and \<open>string + 'a\<close> where it returns
  a value or an error (\<open>Inl\<close> is the error).
\<close>

record TmuxWindow =
  Name :: string
  Commands :: "string list"

record TmuxSession =
  SessionName :: string
  Windows :: "TmuxWindow list"

section \<open>The string functions the program calls\<close>

definition newline :: char where
  "newline = CHR 0x0A"

definition HasPrefix :: "string \<Rightarrow> string \<Rightarrow> bool" where
  "HasPrefix s prefix = (take (length prefix) s = prefix)"

text \<open>\<^verbatim>\<open>strings.Split(s, sep)\<close> for a one-byte separator: the pieces between the separators,
  always at least one piece.\<close>

fun Split :: "char \<Rightarrow> string \<Rightarrow> string list" where
  "Split sep [] = [[]]"
| "Split sep (c # cs) =
     (if c = sep then [] # Split sep cs
      else (case Split sep cs of
              [] \<Rightarrow> [[c]]
            | piece # pieces \<Rightarrow> (c # piece) # pieces))"

text \<open>\<^verbatim>\<open>strings.SplitN(s, sep, 2)\<close> for a one-byte separator: the whole string when the
  separator does not occur, else the text before the first separator and the text after it.\<close>

definition SplitN2 :: "char \<Rightarrow> string \<Rightarrow> string list" where
  "SplitN2 sep s =
     (if sep \<in> set s
      then [takeWhile (\<lambda>c. c \<noteq> sep) s, tl (dropWhile (\<lambda>c. c \<noteq> sep) s)]
      else [s])"

text \<open>
  \<^verbatim>\<open>strings.TrimSpace\<close> removes every leading and every trailing Unicode white-space
  character. The one-byte ones are tab, line feed, vertical tab, form feed, carriage return
  and space; the others are listed by their UTF-8 encodings (U+0085, U+00A0, U+1680,
  U+2000 to U+200A, U+2028, U+2029, U+202F, U+205F, U+3000).
\<close>

definition asciiSpace :: "char \<Rightarrow> bool" where
  "asciiSpace c = (c \<in> set [CHR 0x09, CHR 0x0A, CHR 0x0B, CHR 0x0C, CHR 0x0D, CHR 0x20])"

definition space_runes :: "string list" where
  "space_runes =
     [[CHR 0xC2, CHR 0x85], [CHR 0xC2, CHR 0xA0], [CHR 0xE1, CHR 0x9A, CHR 0x80],
      [CHR 0xE2, CHR 0x80, CHR 0x80], [CHR 0xE2, CHR 0x80, CHR 0x81],
      [CHR 0xE2, CHR 0x80, CHR 0x82], [CHR 0xE2, CHR 0x80, CHR 0x83],
      [CHR 0xE2, CHR 0x80, CHR 0x84], [CHR 0xE2, CHR 0x80, CHR 0x85],
      [CHR 0xE2, CHR 0x80, CHR 0x86], [CHR 0xE2, CHR 0x80, CHR 0x87],
      [CHR 0xE2, CHR 0x80, CHR 0x88], [CHR 0xE2, CHR 0x80, CHR 0x89],
      [CHR 0xE2, CHR 0x80, CHR 0x8A], [CHR 0xE2, CHR 0x80, CHR 0xA8],
      [CHR 0xE2, CHR 0x80, CHR 0xA9], [CHR 0xE2, CHR 0x80, CHR 0xAF],
      [CHR 0xE2, CHR 0x81, CHR 0x9F], [CHR 0xE3, CHR 0x80, CHR 0x80]]"

text \<open>Dropping white space at the front: one-byte characters, or one of the given multi-byte
  encodings when it is a prefix of what is left.\<close>

fun trim_front :: "string list \<Rightarrow> string \<Rightarrow> string" where
  "trim_front runes [] = []"
| "trim_front runes (c # cs) =
     (if asciiSpace c then trim_front runes cs
      else (case filter (HasPrefix (c # cs)) runes of
              [] \<Rightarrow> c # cs
            | r # _ \<Rightarrow> trim_front runes (drop (length r - 1) cs)))"

definition TrimSpace :: "string \<Rightarrow> string" where
  "TrimSpace s = rev (trim_front (map rev space_runes) (rev (trim_front space_runes s)))"

text \<open>\<^verbatim>\<open>fmt.Sprintf("%d", i)\<close> for an index \<open>i\<close> (a non-negative \<^verbatim>\<open>int\<close>).\<close>

definition digit :: "nat \<Rightarrow> char" where
  "digit d = ''0123456789'' ! d"

function itoa :: "nat \<Rightarrow> string" where
  "itoa n = (if n < 10 then [digit n] else itoa (n div 10) @ [digit (n mod 10)])"
  by pat_completeness auto
termination
  by (relation "measure (\<lambda>n. n)") auto

declare itoa.simps [simp del]

section \<open>ReadConfig\<close>

text \<open>
  The body of the loop over the lines of \<^verbatim>\<open>.tp.conf\<close>: an empty line and a line starting with
  \<^verbatim>\<open>#\<close> are skipped; a line with a \<^verbatim>\<open>=\<close> stores the text before the first \<^verbatim>\<open>=\<close> as key and
  \<^verbatim>\<open>strings.TrimSpace\<close> of the text after it as value; any other line stores nothing.
\<close>

definition config_line :: "(string \<rightharpoonup> string) \<Rightarrow> string \<Rightarrow> (string \<rightharpoonup> string)" where
  "config_line config line =
     (if line = [] \<or> HasPrefix line ''#'' then config
      else (let parts = SplitN2 CHR ''='' line
            in if length parts = 2 then config(parts ! 0 \<mapsto> TrimSpace (parts ! 1))
               else config))"

definition config_of_data :: "string \<Rightarrow> (string \<rightharpoonup> string)" where
  "config_of_data data = foldl config_line Map.empty (Split newline data)"

section \<open>The outside world\<close>

text \<open>
  A directory tree as \<^verbatim>\<open>filepath.Walk\<close> finds it. \<open>File\<close> is a regular file,
  \<open>Special\<close> any other entry that is not a directory (a symbolic link, which \<^verbatim>\<open>Lstat\<close>
  does not follow, a FIFO, a socket, a device), \<open>Dir\<close> a directory with its entries in the order
  \<^verbatim>\<open>Walk\<close> reads them (sorted by name), \<open>DirUnreadable\<close> a directory whose
  entries cannot be read, \<open>LstatFails\<close> an entry whose \<^verbatim>\<open>Lstat\<close> fails. The first
  argument is the entry's base name, the error texts are the I/O errors.
\<close>

datatype fsnode =
    File string
  | Special string
  | Dir string "fsnode list"
  | DirUnreadable string string
  | LstatFails string string

fun node_name :: "fsnode \<Rightarrow> string" where
  "node_name (File n) = n"
| "node_name (Special n) = n"
| "node_name (Dir n entries) = n"
| "node_name (DirUnreadable n e) = n"
| "node_name (LstatFails n e) = n"

fun node_is_dir :: "fsnode \<Rightarrow> bool" where
  "node_is_dir (File n) = False"
| "node_is_dir (Special n) = False"
| "node_is_dir (Dir n entries) = True"
| "node_is_dir (DirUnreadable n e) = True"
| "node_is_dir (LstatFails n e) = False"

text \<open>
  What the program does to the outside world, in the order it does it: text written to
  standard output, a file written, a \<^verbatim>\<open>tmux\<close> command run (its argument vector), the
  \<^verbatim>\<open>tmux attach-session\<close> command run with the terminal attached and one variable added to
  the environment, and \<^verbatim>\<open>fzf\<close> run with the given lines on its standard input.
\<close>

datatype event =
    Print string
  | WriteFile string string
  | Exec "string list"
  | ExecAttached "string list" string
  | ExecFzf "string list"

text \<open>
  The outside world answers. Library functions on path strings that the program only passes
  on (\<^verbatim>\<open>filepath.Join\<close>, \<^verbatim>\<open>filepath.Dir\<close>) and the JSON codec are taken as they
  are. The answer of a \<^verbatim>\<open>tmux\<close> command may depend on everything done before it.
\<close>

record world =
  os_Args :: "string list"
  os_Getenv :: "string \<Rightarrow> string"
  os_UserHomeDir :: "string + string"
  ioutil_ReadFile :: "string \<Rightarrow> string + string"
  ioutil_WriteFile :: "string \<Rightarrow> string \<Rightarrow> string option"
  os_Stat :: "string \<Rightarrow> string + bool"
  os_Lstat_tree :: "string \<Rightarrow> fsnode"
  filepath_Join :: "string \<Rightarrow> string list \<Rightarrow> string"
  filepath_Dir :: "string \<Rightarrow> string"
  json_Unmarshal :: "string \<Rightarrow> string + TmuxSession"
  json_MarshalIndent :: "TmuxSession \<Rightarrow> string + string"
  run_fzf :: "string list \<Rightarrow> string + string"
  run_tmux :: "event list \<Rightarrow> string list \<Rightarrow> string option"

definition ReadConfig :: "world \<Rightarrow> string + (string \<rightharpoonup> string)" where
  "ReadConfig w =
     (case os_UserHomeDir w of
        Inl err \<Rightarrow> Inl (''could not find home directory: '' @ err)
      | Inr homeDir \<Rightarrow>
          (case ioutil_ReadFile w (filepath_Join w homeDir [''.tp.conf'']) of
             Inl err \<Rightarrow> Inl (''could not read config file: '' @ err)
           | Inr data \<Rightarrow> Inr (config_of_data data)))"

section \<open>filepath.Walk and ListScripts\<close>

text \<open>
  A path that \<^verbatim>\<open>Walk\<close> hands to its callback is the root joined with the names of the
  entries on the way down; the model keeps these names, \<open>[]\<close> for the root itself.
  \<^verbatim>\<open>filepath.Rel(root, path)\<close> is then the names joined by the separator, and \<^verbatim>\<open>.\<close> for
  the root; it has no error on such a path.
\<close>

type_synonym path = "string list"

definition PathSeparator :: char where
  "PathSeparator = CHR ''/''"

fun join_names :: "string list \<Rightarrow> string" where
  "join_names [] = []"
| "join_names [n] = n"
| "join_names (n # m # ns) = n @ PathSeparator # join_names (m # ns)"

definition Rel :: "path \<Rightarrow> string + string" where
  "Rel p = Inr (if p = [] then ''.'' else join_names p)"

text \<open>
  The three ways \<^verbatim>\<open>Walk\<close> calls its callback: with the entry's \<^verbatim>\<open>FileInfo\<close> and no
  error; with the \<^verbatim>\<open>FileInfo\<close> of a directory and the error of reading its entries; with
  no \<^verbatim>\<open>FileInfo\<close> and the error of \<^verbatim>\<open>Lstat\<close>.
\<close>

record FileInfo =
  info_Name :: string
  info_IsDir :: bool

datatype visit =
    Visited FileInfo
  | ReadDirFailed FileInfo string
  | LstatFailed string

datatype walk_error = SkipDir | Failure string

fun info_of :: "fsnode \<Rightarrow> FileInfo" where
  "info_of t = \<lparr>info_Name = node_name t, info_IsDir = node_is_dir t\<rparr>"

text \<open>
  \<^verbatim>\<open>walk\<close> of package \<^verbatim>\<open>path/filepath\<close>: a non-directory is handed to the callback; a
  directory has its entries read first, is handed to the callback with the error of that (if
  any), and is left when either went wrong; then each entry is visited in turn. An error of
  an entry ends the walk, but \<^verbatim>\<open>SkipDir\<close> from a directory only skips that directory.
\<close>

fun walk :: "(path \<Rightarrow> visit \<Rightarrow> 's \<Rightarrow> walk_error option \<times> 's) \<Rightarrow> path \<Rightarrow> fsnode \<Rightarrow> 's
              \<Rightarrow> walk_error option \<times> 's"
  and walk_entries :: "(path \<Rightarrow> visit \<Rightarrow> 's \<Rightarrow> walk_error option \<times> 's) \<Rightarrow> path \<Rightarrow> fsnode list \<Rightarrow> 's
              \<Rightarrow> walk_error option \<times> 's" where
  "walk fn p (File n) s = fn p (Visited (info_of (File n))) s"
| "walk fn p (Special n) s = fn p (Visited (info_of (Special n))) s"
| "walk fn p (LstatFails n e) s = fn p (LstatFailed e) s"
| "walk fn p (DirUnreadable n e) s = fn p (ReadDirFailed (info_of (DirUnreadable n e)) e) s"
| "walk fn p (Dir n entries) s =
     (case fn p (Visited (info_of (Dir n entries))) s of
        (Some err1, s') \<Rightarrow> (Some err1, s')
      | (None, s') \<Rightarrow> walk_entries fn p entries s')"
| "walk_entries fn p [] s = (None, s)"
| "walk_entries fn p (entry # entries) s =
     (let filename = p @ [node_name entry]
      in (case entry of
            LstatFails n e \<Rightarrow>
              (case fn filename (LstatFailed e) s of
                 (Some err, s') \<Rightarrow>
                   if err \<noteq> SkipDir then (Some err, s') else walk_entries fn p entries s'
               | (None, s') \<Rightarrow> walk_entries fn p entries s')
          | _ \<Rightarrow>
              (case walk fn filename entry s of
                 (Some err, s') \<Rightarrow>
                   if \<not> node_is_dir entry \<or> err \<noteq> SkipDir then (Some err, s')
                   else walk_entries fn p entries s'
               | (None, s') \<Rightarrow> walk_entries fn p entries s')))"

definition Walk :: "(path \<Rightarrow> visit \<Rightarrow> 's \<Rightarrow> walk_error option \<times> 's) \<Rightarrow> fsnode \<Rightarrow> 's
                    \<Rightarrow> string option \<times> 's" where
  "Walk fn root s =
     (case walk fn [] root s of
        (Some SkipDir, s') \<Rightarrow> (None, s')
      | (Some (Failure e), s') \<Rightarrow> (Some e, s')
      | (None, s') \<Rightarrow> (None, s'))"

text \<open>The callback of \<^verbatim>\<open>ListScripts\<close>; its state is the slice \<^verbatim>\<open>scripts\<close>.\<close>

definition listFn :: "path \<Rightarrow> visit \<Rightarrow> path list \<Rightarrow> walk_error option \<times> path list" where
  "listFn p v scripts =
     (case v of
        ReadDirFailed info err \<Rightarrow> (Some (Failure err), scripts)
      | LstatFailed err \<Rightarrow> (Some (Failure err), scripts)
      | Visited info \<Rightarrow>
          (case Rel p of
             Inl err \<Rightarrow> (Some (Failure err), scripts)
           | Inr relativePath \<Rightarrow>
               (let depth = length (Split PathSeparator relativePath)
                in if depth > 3 then
                     (if info_IsDir info then (Some SkipDir, scripts) else (None, scripts))
                   else if info_Name info = ''.tmux'' \<and> \<not> info_IsDir info
                     then (None, scripts @ [p])
                   else (None, scripts))))"

text \<open>The path string of an entry: the root as it was given, or the root joined with the
  names on the way down.\<close>

definition path_string :: "world \<Rightarrow> string \<Rightarrow> path \<Rightarrow> string" where
  "path_string w root p = (if p = [] then root else filepath_Join w root p)"

definition ListScripts :: "world \<Rightarrow> string \<Rightarrow> string list \<times> string option" where
  "ListScripts w root =
     (case Walk listFn (os_Lstat_tree w root) [] of
        (err, scripts) \<Rightarrow> (map (path_string w root) scripts, err))"

section \<open>Selecting and reading a descriptor\<close>

text \<open>\<^verbatim>\<open>fzf\<close> gets the candidate paths as lines; its output is trimmed. An error of the
  pipe or of the command is the error of the answer.\<close>

definition SelectScriptWithFzf :: "world \<Rightarrow> string list \<Rightarrow> event list
                                     \<Rightarrow> (string + string) \<times> event list" where
  "SelectScriptWithFzf w scripts tr =
     (case run_fzf w scripts of
        Inl err \<Rightarrow> (Inl err, tr @ [ExecFzf scripts])
      | Inr output \<Rightarrow> (Inr (TrimSpace output), tr @ [ExecFzf scripts]))"

definition ReadSessionConfig :: "world \<Rightarrow> string \<Rightarrow> string + TmuxSession" where
  "ReadSessionConfig w p =
     (case ioutil_ReadFile w p of
        Inl err \<Rightarrow> Inl (''could not read tmux config file: '' @ err)
      | Inr data \<Rightarrow>
          (case json_Unmarshal w data of
             Inl err \<Rightarrow> Inl (''could not parse tmux config: '' @ err)
           | Inr session \<Rightarrow> Inr session))"

section \<open>Talking to tmux\<close>

text \<open>\<^verbatim>\<open>exec.Command("tmux", args...).Run()\<close>: the command is recorded and the world answers
  with its error, if any.\<close>

definition Run :: "world \<Rightarrow> string list \<Rightarrow> event list \<Rightarrow> string option \<times> event list" where
  "Run w argv tr = (run_tmux w tr argv, tr @ [Exec argv])"

definition sessionExists :: "world \<Rightarrow> string \<Rightarrow> event list \<Rightarrow> bool \<times> event list" where
  "sessionExists w name tr =
     (case Run w [''tmux'', ''has-session'', ''-t'', name] tr of
        (err, tr') \<Rightarrow> (err = None, tr'))"

text \<open>The inner loop of \<^verbatim>\<open>createSession\<close>: the commands of window \<open>i\<close>.\<close>

fun send_commands :: "world \<Rightarrow> string \<Rightarrow> nat \<Rightarrow> string list \<Rightarrow> event list
                       \<Rightarrow> string option \<times> event list" where
  "send_commands w targetWindow i [] tr = (None, tr)"
| "send_commands w targetWindow i (cmdStr # cmds) tr =
     (case Run w [''tmux'', ''send-keys'', ''-t'', targetWindow, cmdStr, ''C-m''] tr of
        (Some err, tr') \<Rightarrow>
          (Some (''failed to send command to window '' @ itoa i @ '': '' @ err), tr')
      | (None, tr') \<Rightarrow> send_commands w targetWindow i cmds tr')"

text \<open>The outer loop of \<^verbatim>\<open>createSession\<close>, from window index \<open>i\<close> on.\<close>

fun create_windows :: "world \<Rightarrow> TmuxSession \<Rightarrow> string \<Rightarrow> nat \<Rightarrow> TmuxWindow list \<Rightarrow> event list
                        \<Rightarrow> string option \<times> event list" where
  "create_windows w session basePath i [] tr = (None, tr)"
| "create_windows w session basePath i (window # windows) tr =
     (let targetWindow = SessionName session @ '':'' @ itoa i
      in (case (if i = 0
                then Run w [''tmux'', ''rename-window'', ''-t'', targetWindow, Name window] tr
                else Run w [''tmux'', ''new-window'', ''-t'', SessionName session,
                            ''-n'', Name window] tr) of
            (Some err, tr1) \<Rightarrow> (Some (''failed to create window: '' @ err), tr1)
          | (None, tr1) \<Rightarrow>
              (case Run w [''tmux'', ''send-keys'', ''-t'', targetWindow,
                           ''cd '' @ basePath, ''C-m''] tr1 of
                 (Some err, tr2) \<Rightarrow>
                   (Some (''failed to change directory in window '' @ itoa i @ '': '' @ err),
                    tr2)
               | (None, tr2) \<Rightarrow>
                   (case send_commands w targetWindow i (Commands window) tr2 of
                      (Some err, tr3) \<Rightarrow> (Some err, tr3)
                    | (None, tr3) \<Rightarrow>
                        create_windows w session basePath (Suc i) windows tr3))))"

definition createSession :: "world \<Rightarrow> TmuxSession \<Rightarrow> string \<Rightarrow> event list
                              \<Rightarrow> string option \<times> event list" where
  "createSession w session basePath tr =
     (case Run w [''tmux'', ''new-session'', ''-d'', ''-s'', SessionName session] tr of
        (Some err, tr') \<Rightarrow> (Some (''failed to create session: '' @ err), tr')
      | (None, tr') \<Rightarrow> create_windows w session basePath 0 (Windows session) tr')"

definition attachSession :: "world \<Rightarrow> string \<Rightarrow> event list \<Rightarrow> string option \<times> event list" where
  "attachSession w name tr =
     (let tr1 = tr @ [Print (''Attempting to attach to session: '' @ name @ [newline])];
          argv = [''tmux'', ''attach-session'', ''-t'', name]
      in (case run_tmux w tr1 argv of
            Some err \<Rightarrow>
              (Some (''failed to attach to session: '' @ err),
               tr1 @ [ExecAttached argv ''TERM=xterm-256color''])
          | None \<Rightarrow> (None, tr1 @ [ExecAttached argv ''TERM=xterm-256color''])))"

section \<open>The init subcommand\<close>

definition minimalConfig :: TmuxSession where
  "minimalConfig =
     \<lparr>SessionName = ''my-session'',
      Windows = [\<lparr>Name = ''window1'', Commands = [''echo 'Hello, tmux!'' @ [CHR 0x27]]\<rparr>]\<rparr>"

definition initTmuxConfig :: "world \<Rightarrow> event list \<Rightarrow> string option \<times> event list" where
  "initTmuxConfig w tr =
     (case json_MarshalIndent w minimalConfig of
        Inl err \<Rightarrow> (Some (''failed to marshal minimal config: '' @ err), tr)
      | Inr data \<Rightarrow>
          (case ioutil_WriteFile w ''.tmux'' data of
             Some err \<Rightarrow>
               (Some (''failed to write .tmux file: '' @ err), tr @ [WriteFile ''.tmux'' data])
           | None \<Rightarrow>
               (None, tr @ [WriteFile ''.tmux'' data,
                            Print (''Created minimal .tmux file in the current directory.''
                                   @ [newline])])))"

section \<open>main\<close>

text \<open>The end of \<^verbatim>\<open>main\<close>: attach to the session when it exists, else create it and
  attach. The result is the exit code of the process and everything done.\<close>

definition attach_or_create :: "world \<Rightarrow> TmuxSession \<Rightarrow> string \<Rightarrow> event list
                                 \<Rightarrow> nat \<times> event list" where
  "attach_or_create w sessionConfig basePath tr =
     (case sessionExists w (SessionName sessionConfig) tr of
        (True, tr1) \<Rightarrow>
          (case attachSession w (SessionName sessionConfig)
                  (tr1 @ [Print (''Session '' @ SessionName sessionConfig
                                 @ '' already exists. Attaching to it.'' @ [newline])]) of
             (Some err, tr2) \<Rightarrow>
               (0, tr2 @ [Print (''Error attaching to session: '' @ err @ [newline])])
           | (None, tr2) \<Rightarrow> (0, tr2))
      | (False, tr1) \<Rightarrow>
          (case createSession w sessionConfig basePath tr1 of
             (Some err, tr2) \<Rightarrow>
               (1, tr2 @ [Print (''Error creating session: '' @ err @ [newline])])
           | (None, tr2) \<Rightarrow>
               (case attachSession w (SessionName sessionConfig) tr2 of
                  (Some err, tr3) \<Rightarrow>
                    (1, tr3 @ [Print (''Error attaching to session: '' @ err @ [newline])])
                | (None, tr3) \<Rightarrow> (0, tr3))))"

definition main :: "world \<Rightarrow> nat \<times> event list" where
  "main w =
     (if length (os_Args w) > 1 \<and> os_Args w ! 1 = ''init'' then
        (case initTmuxConfig w [] of
           (Some err, tr) \<Rightarrow>
             (1, tr @ [Print (''Error initializing tmux config: '' @ err @ [newline])])
         | (None, tr) \<Rightarrow> (0, tr))
      else
        (case ReadConfig w of
           Inl err \<Rightarrow> (1, [Print (''Error reading configuration: '' @ err @ [newline])])
         | Inr config \<Rightarrow>
             (case config ''TP_DIRECTORY'' of
                None \<Rightarrow>
                  (1, [Print (''TP_DIRECTORY is not set in the configuration'' @ [newline])])
              | Some root \<Rightarrow>
                  (if os_Stat w root \<noteq> Inr True then
                     (1, [Print (''TP_DIRECTORY is not a valid directory ('' @ root @ '')''
                                 @ [newline])])
                   else
                     (case ListScripts w root of
                        (scripts, Some err) \<Rightarrow>
                          (1, [Print (''Error listing scripts: '' @ err @ [newline])])
                      | (scripts, None) \<Rightarrow>
                          (if length scripts = 0 then
                             (1, [Print (''No .tmux scripts found.'' @ [newline])])
                           else
                             (case SelectScriptWithFzf w scripts [] of
                                (Inl err, tr) \<Rightarrow>
                                  (1, tr @ [Print (''Error selecting script: '' @ err
                                                   @ [newline])])
                              | (Inr selectedScript, tr) \<Rightarrow>
                                  (case ReadSessionConfig w selectedScript of
                                     Inl err \<Rightarrow>
                                       (1, tr @ [Print
                                          (''Error reading tmux session configuration: ''
                                           @ err @ [newline])])
                                   | Inr sessionConfig \<Rightarrow>
                                       attach_or_create w sessionConfig
                                         (filepath_Dir w selectedScript) tr))))))))"

section \<open>The minimal variant (main.go)\<close>

text \<open>The same walk with the root from the environment; a descriptor found is printed, and
  the error of the walk is dropped.\<close>

definition printFn :: "world \<Rightarrow> string \<Rightarrow> path \<Rightarrow> visit \<Rightarrow> event list
                        \<Rightarrow> walk_error option \<times> event list" where
  "printFn w root p v tr =
     (case v of
        ReadDirFailed info err \<Rightarrow> (Some (Failure err), tr)
      | LstatFailed err \<Rightarrow> (Some (Failure err), tr)
      | Visited info \<Rightarrow>
          (case Rel p of
             Inl err \<Rightarrow> (Some (Failure err), tr)
           | Inr relativePath \<Rightarrow>
               (let depth = length (Split PathSeparator relativePath)
                in if depth > 3 then
                     (if info_IsDir info then (Some SkipDir, tr) else (None, tr))
                   else if info_Name info = ''.tmux'' \<and> \<not> info_IsDir info
                     then (None, tr @ [Print (path_string w root p @ [newline])])
                   else (None, tr))))"

definition main_go :: "world \<Rightarrow> nat \<times> event list" where
  "main_go w =
     (let root = os_Getenv w ''TP_DIRECTORY''
      in if root = [] then (1, [Print (''TP_DIRECTORY is not set'' @ [newline])])
         else (case os_Stat w root of
                 Inl err \<Rightarrow>
                   (1, [Print (''TP_DIRECTORY does not exist ('' @ root @ '')'' @ [newline])])
               | Inr isDir \<Rightarrow>
                   if \<not> isDir then
                     (1, [Print (''TP_DIRECTORY is not a directory ('' @ root @ '')''
                                 @ [newline])])
                   else (0, snd (Walk (printFn w root) (os_Lstat_tree w root) []))))"

section \<open>What the walk is expected to find\<close>

text \<open>
  The depth of an entry is the number of path segments between the root and the entry: the
  length of its path, 0 for the root. \<open>files_below p t\<close> lists every non-directory entry of
  the tree \<open>t\<close> standing at path \<open>p\<close>, with its path and base name, in the order of the walk.
\<close>

fun files_below :: "path \<Rightarrow> fsnode \<Rightarrow> (path \<times> string) list" where
  "files_below p (File n) = [(p, n)]"
| "files_below p (Special n) = [(p, n)]"
| "files_below p (Dir n entries) =
     concat (map (\<lambda>e. files_below (p @ [node_name e]) e) entries)"
| "files_below p (DirUnreadable n e) = []"
| "files_below p (LstatFails n e) = []"

definition is_descriptor :: "nat \<Rightarrow> path \<times> string \<Rightarrow> bool" where
  "is_descriptor bound f = (snd f = ''.tmux'' \<and> length (fst f) \<le> bound)"

definition descriptors_below :: "nat \<Rightarrow> path \<Rightarrow> fsnode \<Rightarrow> path list" where
  "descriptors_below bound p t = map fst (filter (is_descriptor bound) (files_below p t))"

text \<open>Entry names never hold the path separator.\<close>

fun names_ok :: "fsnode \<Rightarrow> bool" where
  "names_ok (Dir n entries) =
     list_all (\<lambda>e. PathSeparator \<notin> set (node_name e) \<and> names_ok e) entries"
| "names_ok (File n) = True"
| "names_ok (Special n) = True"
| "names_ok (DirUnreadable n e) = True"
| "names_ok (LstatFails n e) = True"

text \<open>
  The first I/O error in the order of the walk, among the entries the walk can reach: the
  entries of directories at depth at most 3. \<open>d\<close> is the depth of the entry.
\<close>

fun first_some :: "'a option list \<Rightarrow> 'a option" where
  "first_some [] = None"
| "first_some (None # xs) = first_some xs"
| "first_some (Some x # xs) = Some x"

fun first_error :: "nat \<Rightarrow> fsnode \<Rightarrow> string option" where
  "first_error d (File n) = None"
| "first_error d (Special n) = None"
| "first_error d (LstatFails n e) = Some e"
| "first_error d (DirUnreadable n e) = Some e"
| "first_error d (Dir n entries) =
     (if d > 3 then None else first_some (map (first_error (Suc d)) entries))"

text \<open>What the walk hands back for an entry at depth \<open>d\<close>: the first I/O error, or
  \<^verbatim>\<open>SkipDir\<close> for a directory past the bound.\<close>

definition walk_outcome :: "nat \<Rightarrow> fsnode \<Rightarrow> walk_error option" where
  "walk_outcome d t =
     (case first_error d t of
        Some e \<Rightarrow> Some (Failure e)
      | None \<Rightarrow> if node_is_dir t \<and> 3 < d then Some SkipDir else None)"

text \<open>The line the minimal variant prints for a descriptor.\<close>

definition print_path :: "world \<Rightarrow> string \<Rightarrow> path \<Rightarrow> event" where
  "print_path w root p = Print (path_string w root p @ [newline])"

text \<open>
  What the walk meets, in its order: the non-directory entries (with path and base name) and
  the I/O errors, among the entries of directories at depth at most 3. The walk stops at the
  first error, so the descriptors it has collected by then are those among the entries
  before it.
\<close>

datatype item = Entry path string | Broken string

fun items_below :: "path \<Rightarrow> fsnode \<Rightarrow> item list" where
  "items_below p (File n) = [Entry p n]"
| "items_below p (Special n) = [Entry p n]"
| "items_below p (LstatFails n e) = [Broken e]"
| "items_below p (DirUnreadable n e) = [Broken e]"
| "items_below p (Dir n entries) =
     (if length p > 3 then []
      else concat (map (\<lambda>e. items_below (p @ [node_name e]) e) entries))"

fun is_entry :: "item \<Rightarrow> bool" where
  "is_entry (Entry p n) = True"
| "is_entry (Broken e) = False"

fun descriptor_of :: "item \<Rightarrow> path list" where
  "descriptor_of (Entry p n) = (if n = ''.tmux'' \<and> length p \<le> 3 then [p] else [])"
| "descriptor_of (Broken e) = []"

definition descriptors_before_error :: "path \<Rightarrow> fsnode \<Rightarrow> path list" where
  "descriptors_before_error p t =
     concat (map descriptor_of (takeWhile is_entry (items_below p t)))"

text \<open>
  The reading of the bound by directory levels: the depth of a file is the number of
  directories between the root and the file (\<^verbatim>\<open>a/.tmux\<close> is at depth 1,
  \<^verbatim>\<open>a/b/c/d/.tmux\<close> at depth 4), and only regular files count.
\<close>

fun regular_files_below :: "path \<Rightarrow> fsnode \<Rightarrow> (path \<times> string) list" where
  "regular_files_below p (File n) = [(p, n)]"
| "regular_files_below p (Special n) = []"
| "regular_files_below p (Dir n entries) =
     concat (map (\<lambda>e. regular_files_below (p @ [node_name e]) e) entries)"
| "regular_files_below p (DirUnreadable n e) = []"
| "regular_files_below p (LstatFails n e) = []"

definition directory_levels :: "path \<Rightarrow> nat" where
  "directory_levels p = length p - 1"

definition regular_descriptors_by_level :: "nat \<Rightarrow> fsnode \<Rightarrow> path list" where
  "regular_descriptors_by_level bound t =
     map fst (filter (\<lambda>f. snd f = ''.tmux'' \<and> directory_levels (fst f) \<le> bound)
                     (regular_files_below [] t))"

section \<open>What createSession is expected to send\<close>

text \<open>
  The commands of a session in the order of the descriptor: the detached session is created;
  then for each window, at its position \<open>i\<close> counted from 0, the window is renamed (\<open>i = 0\<close>) or
  created (\<open>i > 0\<close>), the directory is changed, and the commands of the window are typed.
\<close>

definition window_target :: "TmuxSession \<Rightarrow> nat \<Rightarrow> string" where
  "window_target session i = SessionName session @ '':'' @ itoa i"

definition window_commands :: "TmuxSession \<Rightarrow> string \<Rightarrow> nat \<Rightarrow> TmuxWindow \<Rightarrow> string list list" where
  "window_commands session basePath i window =
     (if i = 0
      then [''tmux'', ''rename-window'', ''-t'', window_target session i, Name window]
      else [''tmux'', ''new-window'', ''-t'', SessionName session, ''-n'', Name window])
     # [''tmux'', ''send-keys'', ''-t'', window_target session i, ''cd '' @ basePath, ''C-m'']
     # map (\<lambda>cmdStr. [''tmux'', ''send-keys'', ''-t'', window_target session i, cmdStr, ''C-m''])
         (Commands window)"

definition windows_commands :: "TmuxSession \<Rightarrow> string \<Rightarrow> nat \<Rightarrow> TmuxWindow list
                                 \<Rightarrow> string list list" where
  "windows_commands session basePath i windows =
     concat (map (\<lambda>(j, window). window_commands session basePath j window)
                 (enumerate i windows))"

definition session_commands :: "TmuxSession \<Rightarrow> string \<Rightarrow> string list list" where
  "session_commands session basePath =
     [''tmux'', ''new-session'', ''-d'', ''-s'', SessionName session]
     # windows_commands session basePath 0 (Windows session)"

text \<open>Running commands one after the other until one fails.\<close>

fun run_all :: "world \<Rightarrow> string list list \<Rightarrow> event list \<Rightarrow> string option \<times> event list" where
  "run_all w [] tr = (None, tr)"
| "run_all w (argv # rest) tr =
     (case Run w argv tr of
        (Some err, tr') \<Rightarrow> (Some err, tr')
      | (None, tr') \<Rightarrow> run_all w rest tr')"

text \<open>Kinds of commands, and the window a command is addressed to.\<close>

definition is_window_op :: "string list \<Rightarrow> bool" where
  "is_window_op argv =
     (take 2 argv = [''tmux'', ''rename-window''] \<or> take 2 argv = [''tmux'', ''new-window''])"

definition is_send_keys :: "string list \<Rightarrow> bool" where
  "is_send_keys argv = (take 2 argv = [''tmux'', ''send-keys''])"

definition is_cd :: "string \<Rightarrow> string list \<Rightarrow> bool" where
  "is_cd basePath argv = (is_send_keys argv \<and> drop 4 argv = [''cd '' @ basePath, ''C-m''])"

definition addressed_window :: "string list \<Rightarrow> string option" where
  "addressed_window argv =
     (if take 3 argv = [''tmux'', ''rename-window'', ''-t'']
         \<or> take 3 argv = [''tmux'', ''send-keys'', ''-t'']
      then Some (argv ! 3) else None)"

text \<open>The target the specification asks for: the base index of the multiplexer plus the
  position of the window.\<close>

definition based_target :: "nat \<Rightarrow> TmuxSession \<Rightarrow> nat \<Rightarrow> string" where
  "based_target base session i = SessionName session @ '':'' @ itoa (base + i)"

text \<open>The \<^verbatim>\<open>tmux\<close> commands among the events, and the candidate lists given to \<^verbatim>\<open>fzf\<close>.\<close>

fun tmux_commands :: "event list \<Rightarrow> string list list" where
  "tmux_commands [] = []"
| "tmux_commands (Exec argv # tr) = argv # tmux_commands tr"
| "tmux_commands (ExecAttached argv env # tr) = argv # tmux_commands tr"
| "tmux_commands (ev # tr) = tmux_commands tr"

fun fzf_calls :: "event list \<Rightarrow> string list list" where
  "fzf_calls [] = []"
| "fzf_calls (ExecFzf scripts # tr) = scripts # fzf_calls tr"
| "fzf_calls (ev # tr) = fzf_calls tr"

section \<open>Example worlds\<close>

text \<open>A tree with descriptors at depths 1, 3, 4 and 5, a directory named \<^verbatim>\<open>.tmux\<close>, and a
  descriptor in a directory that comes after the deep one.\<close>

definition example_tree :: fsnode where
  "example_tree =
     Dir ''projects''
       [File ''.tmux'',
        Dir ''a''
          [Dir ''.tmux'' [File ''notes''],
           Dir ''b''
             [File ''.tmux'',
              Dir ''c'' [File ''.tmux'', Dir ''d'' [File ''.tmux'']]]],
        File ''readme'',
        Dir ''z'' [File ''.tmux'']]"

text \<open>The same tree with an unreadable directory at depth 2, after the first descriptors.\<close>

definition broken_tree :: fsnode where
  "broken_tree =
     Dir ''projects''
       [File ''.tmux'',
        Dir ''a'' [File ''.tmux'', DirUnreadable ''b'' ''permission denied''],
        Dir ''z'' [File ''.tmux'']]"

definition join_slash :: "string \<Rightarrow> string list \<Rightarrow> string" where
  "join_slash root names = root @ concat (map (\<lambda>n. PathSeparator # n) names)"

definition example_session :: TmuxSession where
  "example_session =
     \<lparr>SessionName = ''s'', Windows = [\<lparr>Name = ''w1'', Commands = [''echo hi'']\<rparr>]\<rparr>"

text \<open>A world in which the settings file names \<^verbatim>\<open>/srv\<close>, the tree \<open>t\<close> stands there,
  \<^verbatim>\<open>fzf\<close> answers with the first candidate, every descriptor file holds
  \<open>example_session\<close>, and \<^verbatim>\<open>tmux\<close> answers by \<open>tmux\<close>.\<close>

definition example_world :: "fsnode \<Rightarrow> (event list \<Rightarrow> string list \<Rightarrow> string option) \<Rightarrow> world" where
  "example_world t tmux =
     \<lparr>os_Args = [''tp''],
      os_Getenv = (\<lambda>k. if k = ''TP_DIRECTORY'' then ''/srv'' else []),
      os_UserHomeDir = Inr ''/home/u'',
      ioutil_ReadFile = (\<lambda>p. if p = ''/home/u/.tp.conf''
                              then Inr (''# settings'' @ [newline] @ ''TP_DIRECTORY=/srv''
                                        @ [newline])
                              else Inr ''{}''),
      ioutil_WriteFile = (\<lambda>p data. None),
      os_Stat = (\<lambda>p. if p = ''/srv'' then Inr True else Inl ''no such file or directory''),
      os_Lstat_tree = (\<lambda>p. t),
      filepath_Join = join_slash,
      filepath_Dir = (\<lambda>p. ''/proj''),
      json_Unmarshal = (\<lambda>data. Inr example_session),
      json_MarshalIndent = (\<lambda>session. Inr ''{}''),
      run_fzf = (\<lambda>scripts. case scripts of [] \<Rightarrow> Inl ''exit status 2''
                                       | c # _ \<Rightarrow> Inr (c @ [newline])),
      run_tmux = tmux\<rparr>"

text \<open>\<^verbatim>\<open>tmux\<close> with no session yet in which every other command succeeds, and \<^verbatim>\<open>tmux\<close>
  in which every command succeeds (so the session exists).\<close>

definition tmux_fresh :: "event list \<Rightarrow> string list \<Rightarrow> string option" where
  "tmux_fresh tr argv = (if take 2 argv = [''tmux'', ''has-session''] then Some ''exit status 1''
                         else None)"

definition tmux_running :: "event list \<Rightarrow> string list \<Rightarrow> string option" where
  "tmux_running tr argv = None"

text \<open>\<^verbatim>\<open>tmux\<close> with no session yet whose first window is not number 0 (its base index is 1):
  renaming window 0 fails. And \<^verbatim>\<open>tmux\<close> with the session running and no terminal to
  attach to.\<close>

definition tmux_base_1 :: "event list \<Rightarrow> string list \<Rightarrow> string option" where
  "tmux_base_1 tr argv =
     (if take 2 argv = [''tmux'', ''has-session''] then Some ''exit status 1''
      else if take 2 argv = [''tmux'', ''rename-window''] \<and> argv ! 3 = ''s:0''
        then Some ''exit status 1''
      else None)"

definition tmux_no_terminal :: "event list \<Rightarrow> string list \<Rightarrow> string option" where
  "tmux_no_terminal tr argv =
     (if take 2 argv = [''tmux'', ''attach-session''] then Some ''exit status 1'' else None)"

definition example_conf :: string where
  "example_conf = ''# settings'' @ [newline] @ ''TP_DIRECTORY=/srv'' @ [newline]"


text \<open>A tree without a descriptor file.\<close>

definition bare_tree :: fsnode where
  "bare_tree = Dir ''projects'' [File ''readme'', Dir ''a'' [Dir ''.tmux'' []]]"

text \<open>\<^verbatim>\<open>tmux\<close> with no session yet and no terminal to attach to; \<^verbatim>\<open>tmux\<close> with no session
  yet that cannot create a second window; and a session with two windows.\<close>

definition tmux_fresh_no_terminal :: "event list \<Rightarrow> string list \<Rightarrow> string option" where
  "tmux_fresh_no_terminal tr argv =
     (if take 2 argv = [''tmux'', ''has-session''] \<or> take 2 argv = [''tmux'', ''attach-session'']
      then Some ''exit status 1'' else None)"

definition tmux_no_new_window :: "event list \<Rightarrow> string list \<Rightarrow> string option" where
  "tmux_no_new_window tr argv =
     (if take 2 argv = [''tmux'', ''has-session''] \<or> take 2 argv = [''tmux'', ''new-window'']
      then Some ''exit status 1'' else None)"

definition two_windows :: TmuxSession where
  "two_windows =
     \<lparr>SessionName = ''s'',
      Windows = [\<lparr>Name = ''w1'', Commands = [''echo hi'']\<rparr>,
                 \<lparr>Name = ''w2'', Commands = [''ls'']\<rparr>]\<rparr>"

text \<open>A character that is not white space and not part of a multi-byte encoding.\<close>

definition plain :: "char \<Rightarrow> bool" where
  "plain c = (\<not> asciiSpace c \<and> of_char c < (128::nat))"

text \<open>The example world with another settings file.\<close>

definition world_with_settings :: "string \<Rightarrow> world" where
  "world_with_settings data =
     (example_world example_tree tmux_running)\<lparr>ioutil_ReadFile := (\<lambda>p. Inr data)\<rparr>"

text \<open>A descriptor three directories below the root, and a symbolic link named
  \<^verbatim>\<open>.tmux\<close> in the root.\<close>

definition deep_tree :: fsnode where
  "deep_tree = Dir ''projects'' [Dir ''a'' [Dir ''b'' [Dir ''c'' [File ''.tmux'']]]]"

definition link_tree :: fsnode where
  "link_tree = Dir ''projects'' [Special ''.tmux'']"

section \<open>Properties of the string functions and of the walk\<close>


lemma Split_not_Nil: "Split sep s \<noteq> []"
  by (induction s) (auto split: list.splits)

lemma Split_no_sep: "sep \<notin> set s \<Longrightarrow> Split sep s = [s]"
  by (induction s) auto

lemma Split_at_sep: "sep \<notin> set a \<Longrightarrow> Split sep (a @ sep # b) = a # Split sep b"
  by (induction a) auto

lemma length_Split_join_names:
  "p \<noteq> [] \<Longrightarrow> list_all (\<lambda>n. PathSeparator \<notin> set n) p
     \<Longrightarrow> length (Split PathSeparator (join_names p)) = length p"
proof (induction p rule: join_names.induct)
  case 1
  then show ?case by simp
next
  case (2 n)
  then show ?case by (simp add: Split_no_sep)
next
  case (3 n m ns)
  then show ?case by (simp add: Split_at_sep)
qed

lemma listFn_Visited:
  assumes "list_all (\<lambda>n. PathSeparator \<notin> set n) p"
  shows "listFn p (Visited info) s =
           (if length p > 3 then (if info_IsDir info then (Some SkipDir, s) else (None, s))
            else if info_Name info = ''.tmux'' \<and> \<not> info_IsDir info then (None, s @ [p])
            else (None, s))"
proof (cases "p = []")
  case True
  then show ?thesis by (simp add: listFn_def Rel_def PathSeparator_def)
next
  case False
  with assms have "length (Split PathSeparator (join_names p)) = length p"
    by (simp add: length_Split_join_names)
  with False show ?thesis by (simp add: listFn_def Rel_def Let_def)
qed


lemma files_below_length: "(q, n) \<in> set (files_below p t) \<Longrightarrow> length p \<le> length q"
proof (induction t arbitrary: p)
  case (Dir m entries)
  then obtain e where e: "e \<in> set entries" "(q, n) \<in> set (files_below (p @ [node_name e]) e)"
    by auto
  from Dir.IH [OF e] show ?case by simp
qed auto

lemma descriptors_below_deep: "bound < length p \<Longrightarrow> descriptors_below bound p t = []"
proof -
  assume deep: "bound < length p"
  have "\<not> is_descriptor bound f" if "f \<in> set (files_below p t)" for f
  proof -
    obtain q n where f: "f = (q, n)" by (cases f)
    with that files_below_length [of q n p t] deep show ?thesis
      by (simp add: is_descriptor_def)
  qed
  then have "filter (is_descriptor bound) (files_below p t) = []"
    by (simp add: filter_empty_conv)
  then show ?thesis by (simp add: descriptors_below_def)
qed

lemma descriptors_below_Dir:
  "descriptors_below bound p (Dir n entries) =
     concat (map (\<lambda>e. descriptors_below bound (p @ [node_name e]) e) entries)"
  by (simp add: descriptors_below_def map_concat filter_concat comp_def)

lemma first_some_None: "first_some xs = None \<longleftrightarrow> (\<forall>x \<in> set xs. x = None)"
  by (induction xs rule: first_some.induct) auto

lemma walk_entries_listFn:
  assumes IH: "\<And>e q s. e \<in> set entries \<Longrightarrow> list_all (\<lambda>n. PathSeparator \<notin> set n) q
                 \<Longrightarrow> names_ok e \<Longrightarrow> first_error (length q) e = None
                 \<Longrightarrow> walk listFn q e s =
                       (if node_is_dir e \<and> 3 < length q then Some SkipDir else None,
                        s @ descriptors_below 3 q e)"
    and p: "list_all (\<lambda>n. PathSeparator \<notin> set n) p"
    and names: "list_all (\<lambda>e. PathSeparator \<notin> set (node_name e) \<and> names_ok e) entries"
    and noerr: "\<forall>e \<in> set entries. first_error (Suc (length p)) e = None"
  shows "walk_entries listFn p entries s =
           (None, s @ concat (map (\<lambda>e. descriptors_below 3 (p @ [node_name e]) e) entries))"
  using IH names noerr
proof (induction entries arbitrary: s)
  case Nil
  then show ?case by simp
next
  case (Cons e entries)
  let ?q = "p @ [node_name e]"
  have q: "list_all (\<lambda>n. PathSeparator \<notin> set n) ?q"
    using p Cons.prems(2) by simp
  have e: "names_ok e" "first_error (length ?q) e = None"
    using Cons.prems(2,3) by simp_all
  have step: "walk listFn ?q e s =
                (if node_is_dir e \<and> 3 < length ?q then Some SkipDir else None,
                 s @ descriptors_below 3 ?q e)"
    using Cons.prems(1) [OF _ q e] by simp
  have rest: "walk_entries listFn p entries s' =
                (None, s' @ concat (map (\<lambda>e. descriptors_below 3 (p @ [node_name e]) e) entries))"
    for s'
    using Cons.IH Cons.prems by simp
  have nolstat: "\<And>n x. e \<noteq> LstatFails n x"
    using e(2) by auto
  show ?case
    using step rest nolstat by (cases e) (simp_all add: Let_def)
qed

lemma walk_listFn:
  assumes "list_all (\<lambda>n. PathSeparator \<notin> set n) p" "names_ok t" "first_error (length p) t = None"
  shows "walk listFn p t s =
           (if node_is_dir t \<and> 3 < length p then Some SkipDir else None,
            s @ descriptors_below 3 p t)"
  using assms
proof (induction t arbitrary: p s)
  case (File n)
  then show ?case
    by (simp add: listFn_Visited descriptors_below_def is_descriptor_def)
next
  case (Special n)
  then show ?case
    by (simp add: listFn_Visited descriptors_below_def is_descriptor_def)
next
  case (Dir n entries)
  show ?case
  proof (cases "3 < length p")
    case True
    with Dir.prems show ?thesis
      by (simp add: listFn_Visited descriptors_below_deep)
  next
    case False
    have noerr: "\<forall>e \<in> set entries. first_error (Suc (length p)) e = None"
      using Dir.prems(3) False by (simp add: first_some_None)
    have "walk_entries listFn p entries s =
            (None, s @ concat (map (\<lambda>e. descriptors_below 3 (p @ [node_name e]) e) entries))"
      using Dir.IH Dir.prems(1) Dir.prems(2) noerr
      by (intro walk_entries_listFn) simp_all
    with False Dir.prems(1) show ?thesis
      by (simp add: listFn_Visited descriptors_below_Dir)
  qed
qed simp_all


lemma walk_entries_listFn_error:
  assumes IH: "\<And>e q s. e \<in> set entries \<Longrightarrow> list_all (\<lambda>n. PathSeparator \<notin> set n) q
                 \<Longrightarrow> names_ok e \<Longrightarrow> fst (walk listFn q e s) = walk_outcome (length q) e"
    and p: "list_all (\<lambda>n. PathSeparator \<notin> set n) p"
    and names: "list_all (\<lambda>e. PathSeparator \<notin> set (node_name e) \<and> names_ok e) entries"
  shows "fst (walk_entries listFn p entries s) =
           map_option Failure (first_some (map (first_error (Suc (length p))) entries))"
  using IH names
proof (induction entries arbitrary: s)
  case Nil
  then show ?case by simp
next
  case (Cons e entries)
  let ?q = "p @ [node_name e]"
  have q: "list_all (\<lambda>n. PathSeparator \<notin> set n) ?q"
    using p Cons.prems(2) by simp
  have e: "names_ok e"
    using Cons.prems(2) by simp
  obtain r s' where rs: "walk listFn ?q e s = (r, s')"
    by (cases "walk listFn ?q e s")
  have r: "r = walk_outcome (Suc (length p)) e"
    using Cons.prems(1) [OF _ q e, of s] rs by simp
  have rest: "fst (walk_entries listFn p entries s'') =
                map_option Failure (first_some (map (first_error (Suc (length p))) entries))"
    for s''
    using Cons.IH Cons.prems by simp
  show ?case
  proof (cases e)
    case (LstatFails n x)
    then show ?thesis by (simp add: listFn_def)
  next
    case (File n)
    with rs r rest show ?thesis
      by (simp add: walk_outcome_def del: walk.simps)
  next
    case (Special n)
    with rs r rest show ?thesis
      by (simp add: walk_outcome_def del: walk.simps)
  next
    case (Dir n es)
    with rs r rest show ?thesis
      by (simp add: walk_outcome_def del: walk.simps split: option.splits if_splits)
  next
    case (DirUnreadable n x)
    with rs r rest show ?thesis
      by (simp add: walk_outcome_def del: walk.simps)
  qed
qed

lemma walk_listFn_error:
  assumes "list_all (\<lambda>n. PathSeparator \<notin> set n) p" "names_ok t"
  shows "fst (walk listFn p t s) = walk_outcome (length p) t"
  using assms
proof (induction t arbitrary: p s)
  case (File n)
  then show ?case
    by (simp add: listFn_Visited walk_outcome_def)
next
  case (Special n)
  then show ?case
    by (simp add: listFn_Visited walk_outcome_def)
next
  case (Dir n entries)
  show ?case
  proof (cases "3 < length p")
    case True
    with Dir.prems show ?thesis
      by (simp add: listFn_Visited walk_outcome_def)
  next
    case False
    have "fst (walk_entries listFn p entries s) =
            map_option Failure (first_some (map (first_error (Suc (length p))) entries))"
      using Dir.IH Dir.prems by (intro walk_entries_listFn_error) simp_all
    with False Dir.prems(1) show ?thesis
      by (simp add: listFn_Visited walk_outcome_def split: option.splits)
  qed
qed (simp_all add: listFn_def walk_outcome_def)

lemma Walk_listFn_error:
  assumes "names_ok t"
  shows "fst (Walk listFn t s) = first_error 0 t"
proof -
  obtain r s' where rs: "walk listFn [] t s = (r, s')"
    by (cases "walk listFn [] t s")
  with walk_listFn_error [of "[]" t s] assms have "r = walk_outcome 0 t" by simp
  with rs show ?thesis
    by (simp add: Walk_def walk_outcome_def split: option.splits)
qed

lemma Walk_listFn:
  assumes "names_ok t" "first_error 0 t = None"
  shows "Walk listFn t [] = (None, descriptors_below 3 [] t)"
  using walk_listFn [of "[]" t "[]"] assms by (simp add: Walk_def)


lemma first_error_items:
  "first_error (length p) t = None \<longleftrightarrow> list_all is_entry (items_below p t)"
proof (induction t arbitrary: p)
  case (Dir n entries)
  show ?case
  proof (cases "3 < length p")
    case True
    then show ?thesis by simp
  next
    case False
    have "first_error (Suc (length p)) e = None \<longleftrightarrow>
            list_all is_entry (items_below (p @ [node_name e]) e)" if "e \<in> set entries" for e
      using Dir.IH [OF that, of "p @ [node_name e]"] by simp
    with False show ?thesis
      by (simp add: first_some_None list_all_iff)
  qed
qed simp_all

lemma before_error_append_stop:
  "\<not> list_all is_entry xs \<Longrightarrow> takeWhile is_entry (xs @ ys) = takeWhile is_entry xs"
  by (induction xs) auto

lemma before_error_append_go:
  "list_all is_entry xs \<Longrightarrow> takeWhile is_entry (xs @ ys) = xs @ takeWhile is_entry ys"
  by (induction xs) auto

lemma before_error_all: "list_all is_entry xs \<Longrightarrow> takeWhile is_entry xs = xs"
  by (induction xs) auto

lemma descriptors_before_error_Dir:
  "length p \<le> 3 \<Longrightarrow>
   descriptors_before_error p (Dir n (e # entries)) =
     (if first_error (Suc (length p)) e = None
      then descriptors_before_error (p @ [node_name e]) e
           @ descriptors_before_error p (Dir n entries)
      else descriptors_before_error (p @ [node_name e]) e)"
  using first_error_items [of "p @ [node_name e]" e]
  by (simp add: descriptors_before_error_def before_error_append_stop before_error_append_go
      before_error_all)

lemma descriptors_before_error_Dir_Nil:
  "descriptors_before_error p (Dir n []) = []"
  by (simp add: descriptors_before_error_def)

lemma walk_entries_listFn_found:
  assumes IH: "\<And>e q s. e \<in> set entries \<Longrightarrow> list_all (\<lambda>n. PathSeparator \<notin> set n) q
                 \<Longrightarrow> names_ok e
                 \<Longrightarrow> snd (walk listFn q e s) = s @ descriptors_before_error q e"
    and p: "list_all (\<lambda>n. PathSeparator \<notin> set n) p" "length p \<le> 3"
    and names: "list_all (\<lambda>e. PathSeparator \<notin> set (node_name e) \<and> names_ok e) entries"
  shows "snd (walk_entries listFn p entries s) = s @ descriptors_before_error p (Dir n entries)"
  using IH names
proof (induction entries arbitrary: s)
  case Nil
  then show ?case by (simp add: descriptors_before_error_Dir_Nil)
next
  case (Cons e entries)
  let ?q = "p @ [node_name e]"
  have q: "list_all (\<lambda>n. PathSeparator \<notin> set n) ?q"
    using p Cons.prems(2) by simp
  have e: "names_ok e"
    using Cons.prems(2) by simp
  obtain r s' where rs: "walk listFn ?q e s = (r, s')"
    by (cases "walk listFn ?q e s")
  have r: "r = walk_outcome (Suc (length p)) e"
    using walk_listFn_error [OF q e, of s] rs by simp
  have s': "s' = s @ descriptors_before_error ?q e"
    using Cons.prems(1) [OF _ q e, of s] rs by simp
  have rest: "snd (walk_entries listFn p entries s'') =
                s'' @ descriptors_before_error p (Dir n entries)" for s''
    using Cons.IH Cons.prems by simp
  note unfold = descriptors_before_error_Dir [OF p(2), of n e entries]
  show ?case
  proof (cases e)
    case (LstatFails m x)
    then show ?thesis
      by (simp add: listFn_def unfold descriptors_before_error_def)
  next
    case (File m)
    with rs r s' rest unfold show ?thesis
      by (simp add: walk_outcome_def del: walk.simps)
  next
    case (Special m)
    with rs r s' rest unfold show ?thesis
      by (simp add: walk_outcome_def del: walk.simps)
  next
    case (Dir m es)
    with rs r s' rest unfold show ?thesis
      by (simp add: walk_outcome_def del: walk.simps first_error.simps
          split: option.splits if_splits)
  next
    case (DirUnreadable m x)
    with rs r s' rest unfold show ?thesis
      by (simp add: walk_outcome_def del: walk.simps)
  qed
qed

lemma walk_listFn_found:
  assumes "list_all (\<lambda>n. PathSeparator \<notin> set n) p" "names_ok t"
  shows "snd (walk listFn p t s) = s @ descriptors_before_error p t"
  using assms
proof (induction t arbitrary: p s)
  case (File n)
  then show ?case
    by (simp add: listFn_Visited descriptors_before_error_def)
next
  case (Special n)
  then show ?case
    by (simp add: listFn_Visited descriptors_before_error_def)
next
  case (Dir n entries)
  show ?case
  proof (cases "3 < length p")
    case True
    with Dir.prems show ?thesis
      by (simp add: listFn_Visited descriptors_before_error_def)
  next
    case False
    then have le: "length p \<le> 3" by simp
    have "snd (walk_entries listFn p entries s) =
            s @ descriptors_before_error p (Dir n entries)"
      using Dir.IH Dir.prems le by (intro walk_entries_listFn_found) simp_all
    with False Dir.prems(1) show ?thesis
      by (simp add: listFn_Visited split: prod.splits)
  qed
qed (simp_all add: listFn_def descriptors_before_error_def)

lemma Walk_listFn_found:
  assumes "names_ok t"
  shows "snd (Walk listFn t []) = descriptors_before_error [] t"
  using walk_listFn_found [of "[]" t "[]"] assms
  by (auto simp add: Walk_def split: prod.splits option.splits walk_error.splits)

lemma printFn_listFn:
  "printFn w root p v (map (print_path w root) s) =
     (fst (listFn p v s), map (print_path w root) (snd (listFn p v s)))"
  by (cases v) (simp_all add: printFn_def listFn_def Rel_def Let_def print_path_def)

lemma walk_printFn:
  "walk (printFn w root) p t (map (print_path w root) s) =
     (fst (walk listFn p t s), map (print_path w root) (snd (walk listFn p t s)))"
  and "walk_entries (printFn w root) p entries (map (print_path w root) s) =
     (fst (walk_entries listFn p entries s),
      map (print_path w root) (snd (walk_entries listFn p entries s)))"
proof (induction listFn p t s and listFn p entries s rule: walk_walk_entries.induct)
  case (5 p n entries s)
  then show ?case
    by (simp add: printFn_listFn split: prod.splits option.splits)
next
  case (7 p entry entries s)
  then show ?case
    by (cases entry)
       (auto simp add: printFn_listFn Let_def split: prod.splits option.splits if_splits)
qed (simp_all add: printFn_listFn)

lemma Walk_printFn:
  "Walk (printFn w root) t [] =
     (fst (Walk listFn t []), map (print_path w root) (snd (Walk listFn t [])))"
  using walk_printFn(1) [of w root "[]" t "[]"]
  by (simp add: Walk_def split: prod.splits option.splits walk_error.splits)

section \<open>The example worlds and the stages of main\<close>

lemma names_ok_example_tree: "names_ok example_tree"
  by (simp add: example_tree_def PathSeparator_def)

lemma first_error_example_tree: "first_error 0 example_tree = None"
  by (simp add: example_tree_def)

lemma descriptors_example_tree:
  "descriptors_below 3 [] example_tree = [[''.tmux''], [''a'', ''b'', ''.tmux''], [''z'', ''.tmux'']]"
  by (simp add: example_tree_def descriptors_below_def is_descriptor_def)

lemma names_ok_broken_tree: "names_ok broken_tree"
  by (simp add: broken_tree_def PathSeparator_def)

lemma first_error_broken_tree: "first_error 0 broken_tree = Some ''permission denied''"
  by (simp add: broken_tree_def)

lemma example_conf_root: "config_of_data example_conf ''TP_DIRECTORY'' = Some ''/srv''"
  by (simp add: example_conf_def config_of_data_def config_line_def newline_def HasPrefix_def
      SplitN2_def TrimSpace_def space_runes_def asciiSpace_def Let_def)

lemma example_ReadConfig:
  "ReadConfig (example_world t tmux) = Inr (config_of_data example_conf)"
  by (simp add: ReadConfig_def example_world_def join_slash_def PathSeparator_def example_conf_def)

lemma main_lists_scripts:
  assumes "\<not> (length (os_Args w) > 1 \<and> os_Args w ! 1 = ''init'')"
    and "ReadConfig w = Inr config"
    and "config ''TP_DIRECTORY'' = Some root"
    and "os_Stat w root = Inr True"
  shows "main w =
           (case ListScripts w root of
              (scripts, Some err) \<Rightarrow>
                (1, [Print (''Error listing scripts: '' @ err @ [newline])])
            | (scripts, None) \<Rightarrow>
                (if length scripts = 0 then
                   (1, [Print (''No .tmux scripts found.'' @ [newline])])
                 else
                   (case SelectScriptWithFzf w scripts [] of
                      (Inl err, tr) \<Rightarrow>
                        (1, tr @ [Print (''Error selecting script: '' @ err @ [newline])])
                    | (Inr selectedScript, tr) \<Rightarrow>
                        (case ReadSessionConfig w selectedScript of
                           Inl err \<Rightarrow>
                             (1, tr @ [Print (''Error reading tmux session configuration: ''
                                              @ err @ [newline])])
                         | Inr sessionConfig \<Rightarrow>
                             attach_or_create w sessionConfig
                               (filepath_Dir w selectedScript) tr))))"
  unfolding main_def by (simp only: assms if_False sum.case option.case simp_thms)

section \<open>createSession against the expected commands\<close>

lemma run_all_append:
  "run_all w (xs @ ys) tr =
     (case run_all w xs tr of
        (Some err, tr') \<Rightarrow> (Some err, tr')
      | (None, tr') \<Rightarrow> run_all w ys tr')"
  by (induction xs arbitrary: tr) (auto split: prod.splits option.splits)

lemma run_all_ok: "fst (run_all w cmds tr) = None \<Longrightarrow> snd (run_all w cmds tr) = tr @ map Exec cmds"
  by (induction cmds arbitrary: tr) (auto simp add: Run_def split: option.splits)

lemma send_commands_run_all:
  "snd (send_commands w target i cmds tr) =
     snd (run_all w (map (\<lambda>cmdStr. [''tmux'', ''send-keys'', ''-t'', target, cmdStr, ''C-m'']) cmds) tr)
   \<and> (fst (send_commands w target i cmds tr) = None \<longleftrightarrow>
      fst (run_all w (map (\<lambda>cmdStr. [''tmux'', ''send-keys'', ''-t'', target, cmdStr, ''C-m'']) cmds) tr) = None)"
  by (induction cmds arbitrary: tr) (auto split: prod.splits option.splits)

lemma create_windows_run_all:
  "snd (create_windows w session basePath i windows tr) =
     snd (run_all w (windows_commands session basePath i windows) tr)
   \<and> (fst (create_windows w session basePath i windows tr) = None \<longleftrightarrow>
      fst (run_all w (windows_commands session basePath i windows) tr) = None)"
proof (induction windows arbitrary: i tr)
  case Nil
  then show ?case by (simp add: windows_commands_def)
next
  case (Cons window windows)
  define target where "target = SessionName session @ '':'' @ itoa i"
  define c1 where "c1 =
    (if i = 0 then [''tmux'', ''rename-window'', ''-t'', target, Name window]
     else [''tmux'', ''new-window'', ''-t'', SessionName session, ''-n'', Name window])"
  define c2 where "c2 = [''tmux'', ''send-keys'', ''-t'', target, ''cd '' @ basePath, ''C-m'']"
  define cs where "cs =
    map (\<lambda>cmdStr. [''tmux'', ''send-keys'', ''-t'', target, cmdStr, ''C-m'']) (Commands window)"
  define rest where "rest = windows_commands session basePath (Suc i) windows"
  have cmds: "windows_commands session basePath i (window # windows) = c1 # c2 # cs @ rest"
    by (simp add: windows_commands_def window_commands_def window_target_def
        c1_def c2_def cs_def rest_def target_def)
  have code: "create_windows w session basePath i (window # windows) tr =
     (case Run w c1 tr of
        (Some err, tr1) \<Rightarrow> (Some (''failed to create window: '' @ err), tr1)
      | (None, tr1) \<Rightarrow>
          (case Run w c2 tr1 of
             (Some err, tr2) \<Rightarrow>
               (Some (''failed to change directory in window '' @ itoa i @ '': '' @ err), tr2)
           | (None, tr2) \<Rightarrow>
               (case send_commands w target i (Commands window) tr2 of
                  (Some err, tr3) \<Rightarrow> (Some err, tr3)
                | (None, tr3) \<Rightarrow> create_windows w session basePath (Suc i) windows tr3)))"
    by (cases "i = 0")
       (simp_all only: create_windows.simps Let_def c1_def c2_def target_def if_True if_False simp_thms)
  obtain r1 tr1 where r1: "Run w c1 tr = (r1, tr1)" by (cases "Run w c1 tr")
  obtain r2 tr2 where r2: "Run w c2 tr1 = (r2, tr2)" by (cases "Run w c2 tr1")
  obtain r3 tr3 where r3: "send_commands w target i (Commands window) tr2 = (r3, tr3)"
    by (cases "send_commands w target i (Commands window) tr2")
  obtain q3 where q3: "run_all w cs tr2 = (q3, tr3)" "q3 = None \<longleftrightarrow> r3 = None"
    using send_commands_run_all [of w target i "Commands window" tr2] r3
    by (cases "run_all w cs tr2") (simp add: cs_def)
  show ?case
  proof (cases r1)
    case (Some e)
    with r1 show ?thesis by (simp add: cmds code del: create_windows.simps)
  next
    case None
    note n1 = this
    show ?thesis
    proof (cases r2)
      case (Some e)
      with r1 n1 r2 show ?thesis by (simp add: cmds code del: create_windows.simps)
    next
      case None
      note n2 = this
      show ?thesis
      proof (cases r3)
        case (Some e)
        with q3 obtain e' where "q3 = Some e'" by (cases q3) auto
        with r1 n1 r2 n2 r3 Some q3 show ?thesis
          by (simp add: cmds code run_all_append del: create_windows.simps)
      next
        case None
        with q3 have "q3 = None" by simp
        with r1 n1 r2 n2 r3 None q3 Cons.IH [of "Suc i" tr3] show ?thesis
          by (simp add: cmds code run_all_append rest_def del: create_windows.simps)
      qed
    qed
  qed
qed

lemma createSession_run_all:
  "snd (createSession w session basePath tr) = snd (run_all w (session_commands session basePath) tr)
   \<and> (fst (createSession w session basePath tr) = None \<longleftrightarrow>
      fst (run_all w (session_commands session basePath) tr) = None)"
  using create_windows_run_all [of w session basePath 0 "Windows session"]
  by (simp add: createSession_def session_commands_def split: prod.splits option.splits)

lemma createSession_ok:
  assumes "fst (createSession w session basePath tr) = None"
  shows "snd (createSession w session basePath tr) =
           tr @ map Exec (session_commands session basePath)"
  using assms createSession_run_all [of w session basePath tr] run_all_ok by simp

lemma windows_commands_Cons:
  "windows_commands session basePath i (window # windows) =
     window_commands session basePath i window
     @ windows_commands session basePath (Suc i) windows"
  by (simp add: windows_commands_def)

lemma windows_commands_Nil: "windows_commands session basePath i [] = []"
  by (simp add: windows_commands_def)

lemma window_ops_of_window:
  "length (filter is_window_op (window_commands session basePath i window)) = 1"
  by (simp add: window_commands_def is_window_op_def)

lemma window_ops_of_windows:
  "length (filter is_window_op (windows_commands session basePath i windows)) = length windows"
  by (induction windows arbitrary: i)
     (simp_all add: windows_commands_Nil windows_commands_Cons window_ops_of_window)

lemma send_keys_of_window:
  "length (filter is_send_keys (window_commands session basePath i window)) =
     1 + length (Commands window)"
  by (simp add: window_commands_def is_send_keys_def)

lemma send_keys_of_windows:
  "length (filter is_send_keys (windows_commands session basePath i windows)) =
     length windows + sum_list (map (\<lambda>window. length (Commands window)) windows)"
  by (induction windows arbitrary: i)
     (simp_all add: windows_commands_Nil windows_commands_Cons send_keys_of_window)

lemma cd_of_commands:
  "length (filter (is_cd basePath)
      (map (\<lambda>cmdStr. [''tmux'', ''send-keys'', ''-t'', target, cmdStr, ''C-m'']) cmds)) =
   count_list cmds (''cd '' @ basePath)"
  by (induction cmds) (simp_all add: is_cd_def is_send_keys_def)

lemma cd_of_window:
  "length (filter (is_cd basePath) (window_commands session basePath i window)) =
     1 + count_list (Commands window) (''cd '' @ basePath)"
  using cd_of_commands [of basePath "window_target session i" "Commands window"]
  by (simp add: window_commands_def is_cd_def is_send_keys_def)

lemma cd_of_windows:
  "length (filter (is_cd basePath) (windows_commands session basePath i windows)) =
     length windows + count_list (concat (map Commands windows)) (''cd '' @ basePath)"
  by (induction windows arbitrary: i)
     (simp_all add: windows_commands_Nil windows_commands_Cons cd_of_window)

lemma targets_of_window:
  "List.map_filter addressed_window (window_commands session basePath i window) =
     replicate ((if i = 0 then 2 else 1) + length (Commands window)) (window_target session i)"
proof -
  have "List.map_filter addressed_window
          (map (\<lambda>cmdStr. [''tmux'', ''send-keys'', ''-t'', target, cmdStr, ''C-m'']) cmds) =
        replicate (length cmds) target" for cmds target
    by (induction cmds) (simp_all add: List.map_filter_simps addressed_window_def)
  then show ?thesis
    by (simp add: window_commands_def List.map_filter_simps addressed_window_def)
qed

lemma map_filter_append:
  "List.map_filter f (xs @ ys) = List.map_filter f xs @ List.map_filter f ys"
  by (simp add: List.map_filter_def)

lemma targets_of_windows:
  "List.map_filter addressed_window (windows_commands session basePath i windows) =
     concat (map (\<lambda>(j, window).
                    replicate ((if j = 0 then 2 else 1) + length (Commands window))
                      (window_target session j))
                 (enumerate i windows))"
  by (induction windows arbitrary: i)
     (simp_all add: windows_commands_Nil windows_commands_Cons map_filter_append
        targets_of_window List.map_filter_simps)

lemma itoa_0: "itoa 0 = ''0''"
  by (simp add: itoa.simps digit_def)

lemma run_all_trace: "\<exists>k. snd (run_all w cmds tr) = tr @ map Exec (take k cmds)"
proof (induction cmds arbitrary: tr)
  case Nil
  then show ?case by simp
next
  case (Cons argv cmds)
  show ?case
  proof (cases "run_tmux w tr argv")
    case None
    from Cons.IH [of "tr @ [Exec argv]"] obtain k where
      "snd (run_all w cmds (tr @ [Exec argv])) = (tr @ [Exec argv]) @ map Exec (take k cmds)"
      by blast
    with None have "snd (run_all w (argv # cmds) tr) = tr @ map Exec (take (Suc k) (argv # cmds))"
      by (simp add: Run_def)
    then show ?thesis by blast
  next
    case (Some e)
    then have "snd (run_all w (argv # cmds) tr) = tr @ map Exec (take (Suc 0) (argv # cmds))"
      by (simp add: Run_def)
    then show ?thesis by blast
  qed
qed

lemma tmux_commands_append: "tmux_commands (a @ b) = tmux_commands a @ tmux_commands b"
  by (induction a rule: tmux_commands.induct) simp_all

lemma tmux_commands_Exec: "tmux_commands (map Exec cmds) = cmds"
  by (induction cmds) simp_all

lemma fzf_calls_append: "fzf_calls (a @ b) = fzf_calls a @ fzf_calls b"
  by (induction a rule: fzf_calls.induct) simp_all

lemma fzf_calls_Exec: "fzf_calls (map Exec cmds) = []"
  by (induction cmds) simp_all

lemma createSession_trace:
  "\<exists>k. snd (createSession w session basePath tr) =
         tr @ map Exec (take (Suc k) (session_commands session basePath))"
proof -
  let ?first = "[''tmux'', ''new-session'', ''-d'', ''-s'', SessionName session]"
  let ?rest = "windows_commands session basePath 0 (Windows session)"
  obtain k where k: "snd (run_all w ?rest (tr @ [Exec ?first])) =
                       (tr @ [Exec ?first]) @ map Exec (take k ?rest)"
    using run_all_trace by blast
  have "snd (createSession w session basePath tr) =
          tr @ map Exec (take (Suc (if run_tmux w tr ?first = None then k else 0))
                          (session_commands session basePath))"
    using createSession_run_all [of w session basePath tr] k
    by (simp add: session_commands_def Run_def split: option.splits)
  then show ?thesis by blast
qed

lemma attachSession_trace:
  "snd (attachSession w name tr) =
     tr @ [Print (''Attempting to attach to session: '' @ name @ [newline]),
           ExecAttached [''tmux'', ''attach-session'', ''-t'', name] ''TERM=xterm-256color'']"
  by (simp add: attachSession_def Let_def split: option.splits)

lemma example_commands:
  "session_commands example_session ''/proj'' =
     [[''tmux'', ''new-session'', ''-d'', ''-s'', ''s''],
      [''tmux'', ''rename-window'', ''-t'', ''s:0'', ''w1''],
      [''tmux'', ''send-keys'', ''-t'', ''s:0'', ''cd /proj'', ''C-m''],
      [''tmux'', ''send-keys'', ''-t'', ''s:0'', ''echo hi'', ''C-m'']]"
  by (simp add: session_commands_def windows_commands_def window_commands_def
      window_target_def example_session_def itoa_0)

lemma run_all_succeeds:
  assumes "\<And>tr' argv. argv \<in> set cmds \<Longrightarrow> run_tmux w tr' argv = None"
  shows "run_all w cmds tr = (None, tr @ map Exec cmds)"
  using assms by (induction cmds arbitrary: tr) (simp_all add: Run_def)

lemma createSession_succeeds:
  assumes "\<And>tr' argv. argv \<in> set (session_commands session basePath)
             \<Longrightarrow> run_tmux w tr' argv = None"
  shows "createSession w session basePath tr =
           (None, tr @ map Exec (session_commands session basePath))"
proof -
  have "run_all w (session_commands session basePath) tr =
          (None, tr @ map Exec (session_commands session basePath))"
    using assms by (rule run_all_succeeds)
  with createSession_run_all [of w session basePath tr] show ?thesis
    by (cases "createSession w session basePath tr") simp
qed

lemma found_broken_tree:
  "descriptors_before_error [] broken_tree = [[''.tmux''], [''a'', ''.tmux'']]"
  by (simp add: broken_tree_def descriptors_before_error_def)

lemma names_ok_deep_tree: "names_ok deep_tree"
  by (simp add: deep_tree_def PathSeparator_def)

lemma names_ok_link_tree: "names_ok link_tree"
  by (simp add: link_tree_def PathSeparator_def)

lemma ListScripts_deep_tree: "ListScripts (example_world deep_tree tmux) ''/srv'' = ([], None)"
proof -
  have "first_error 0 deep_tree = None"
    by (simp add: deep_tree_def)
  with names_ok_deep_tree
  have "Walk listFn deep_tree [] = (None, descriptors_below 3 [] deep_tree)"
    by (rule Walk_listFn)
  moreover have "descriptors_below 3 [] deep_tree = []"
    by (simp add: deep_tree_def descriptors_below_def is_descriptor_def)
  ultimately show ?thesis
    by (simp add: ListScripts_def example_world_def)
qed

lemma ListScripts_link_tree:
  "ListScripts (example_world link_tree tmux) ''/srv'' = ([''/srv/.tmux''], None)"
proof -
  have "first_error 0 link_tree = None"
    by (simp add: link_tree_def)
  with names_ok_link_tree
  have "Walk listFn link_tree [] = (None, descriptors_below 3 [] link_tree)"
    by (rule Walk_listFn)
  moreover have "descriptors_below 3 [] link_tree = [[''.tmux'']]"
    by (simp add: link_tree_def descriptors_below_def is_descriptor_def)
  ultimately show ?thesis
    by (simp add: ListScripts_def example_world_def path_string_def join_slash_def
        PathSeparator_def)
qed

lemma regular_files_are_files: "set (regular_files_below p t) \<subseteq> set (files_below p t)"
  by (induction t arbitrary: p) auto

lemma main_go_walks:
  assumes "os_Getenv w ''TP_DIRECTORY'' = root" "root \<noteq> []" "os_Stat w root = Inr True"
  shows "main_go w = (0, snd (Walk (printFn w root) (os_Lstat_tree w root) []))"
  using assms by (simp add: main_go_def Let_def)

section \<open>The descriptor walk\<close>

text \<open>
  Claim C1, amended. On a tree that is read without I/O error, \<^verbatim>\<open>ListScripts\<close> returns
  exactly the entries named \<^verbatim>\<open>.tmux\<close> that are not directories (regular files, and symbolic
  links and other special files as well) and whose path below the root has at most 3
  segments, the file name counted: \<^verbatim>\<open>root/a/b/.tmux\<close> is returned,
  \<^verbatim>\<open>root/a/b/c/.tmux\<close> is not. So every regular descriptor with at most 2 directories
  between the root and the file is returned. The order is that of the walk and there is no
  error; the minimal variant prints exactly the same paths. Since \<open>files_below\<close> lists the
  files of the whole tree, the equality says that a directory past the bound hides only its
  own subtree, that later entries at shallower depth are still found, and that a directory
  named \<^verbatim>\<open>.tmux\<close> is never returned.
\<close>

theorem ListScripts_finds_descriptors:
  assumes "names_ok (os_Lstat_tree w root)"
    and "first_error 0 (os_Lstat_tree w root) = None"
  shows "ListScripts w root =
           (map (path_string w root) (descriptors_below 3 [] (os_Lstat_tree w root)), None)
         \<and> set (descriptors_below 3 [] (os_Lstat_tree w root)) =
           {p. (p, ''.tmux'') \<in> set (files_below [] (os_Lstat_tree w root)) \<and> length p \<le> 3}
         \<and> set (regular_descriptors_by_level 2 (os_Lstat_tree w root))
             \<subseteq> set (descriptors_below 3 [] (os_Lstat_tree w root))
         \<and> Walk (printFn w root) (os_Lstat_tree w root) [] =
           (None, map (print_path w root) (descriptors_below 3 [] (os_Lstat_tree w root)))
         \<and> (os_Getenv w ''TP_DIRECTORY'' = root \<longrightarrow> root \<noteq> [] \<longrightarrow> os_Stat w root = Inr True
              \<longrightarrow> main_go w =
                  (0, map (print_path w root) (descriptors_below 3 [] (os_Lstat_tree w root))))"
proof -
  let ?t = "os_Lstat_tree w root"
  have found: "Walk listFn ?t [] = (None, descriptors_below 3 [] ?t)"
    using assms by (rule Walk_listFn)
  have list: "ListScripts w root = (map (path_string w root) (descriptors_below 3 [] ?t), None)"
    using found by (simp add: ListScripts_def)
  have print: "Walk (printFn w root) ?t [] =
                 (None, map (print_path w root) (descriptors_below 3 [] ?t))"
    using found by (simp add: Walk_printFn)
  have exact: "set (descriptors_below 3 [] ?t) =
                 {p. (p, ''.tmux'') \<in> set (files_below [] ?t) \<and> length p \<le> 3}"
    by (auto simp add: descriptors_below_def is_descriptor_def image_iff)
  have "p \<in> set (descriptors_below 3 [] ?t)"
    if "p \<in> set (regular_descriptors_by_level 2 ?t)" for p
  proof -
    from that have "(p, ''.tmux'') \<in> set (regular_files_below [] ?t)" "length p - 1 \<le> 2"
      by (auto simp add: regular_descriptors_by_level_def directory_levels_def)
    with regular_files_are_files [of "[]" ?t]
    have "(p, ''.tmux'') \<in> set (files_below [] ?t)" "length p \<le> 3"
      by auto
    with exact show ?thesis by simp
  qed
  then have levels: "set (regular_descriptors_by_level 2 ?t) \<subseteq> set (descriptors_below 3 [] ?t)"
    by blast
  have go: "main_go w = (0, map (print_path w root) (descriptors_below 3 [] ?t))"
    if "os_Getenv w ''TP_DIRECTORY'' = root" "root \<noteq> []" "os_Stat w root = Inr True"
    using main_go_walks [OF that] print by simp
  from list exact levels print go show ?thesis
    by blast
qed

theorem ListScripts_finds_descriptors_witness:
  "names_ok example_tree \<and> first_error 0 example_tree = None
   \<and> ListScripts (example_world example_tree tmux_running) ''/srv'' =
       ([''/srv/.tmux'', ''/srv/a/b/.tmux'', ''/srv/z/.tmux''], None)
   \<and> main_go (example_world example_tree tmux_running) =
       (0, [Print (''/srv/.tmux'' @ [newline]), Print (''/srv/a/b/.tmux'' @ [newline]),
            Print (''/srv/z/.tmux'' @ [newline])])
   \<and> names_ok link_tree \<and> first_error 0 link_tree = None
   \<and> ListScripts (example_world link_tree tmux_running) ''/srv'' = ([''/srv/.tmux''], None)"
proof -
  let ?w = "example_world example_tree tmux_running"
  let ?v = "example_world link_tree tmux_running"
  have tree: "os_Lstat_tree ?w ''/srv'' = example_tree" "os_Lstat_tree ?v ''/srv'' = link_tree"
    by (simp_all add: example_world_def)
  have env: "os_Getenv ?w ''TP_DIRECTORY'' = ''/srv''" "''/srv'' \<noteq> []"
    "os_Stat ?w ''/srv'' = Inr True"
    by (simp_all add: example_world_def)
  have link: "first_error 0 link_tree = None"
    "descriptors_below 3 [] link_tree = [[''.tmux'']]"
    by (simp_all add: link_tree_def descriptors_below_def is_descriptor_def)
  note t1 = ListScripts_finds_descriptors [of ?w "''/srv''", unfolded tree,
      OF names_ok_example_tree first_error_example_tree]
  note t2 = ListScripts_finds_descriptors [of ?v "''/srv''", unfolded tree,
      OF names_ok_link_tree link(1)]
  have l1: "ListScripts ?w ''/srv'' =
              (map (path_string ?w ''/srv'') (descriptors_below 3 [] example_tree), None)"
    using t1 by blast
  have g1: "main_go ?w = (0, map (print_path ?w ''/srv'') (descriptors_below 3 [] example_tree))"
    using t1 env by blast
  have l2: "ListScripts ?v ''/srv'' =
              (map (path_string ?v ''/srv'') (descriptors_below 3 [] link_tree), None)"
    using t2 by blast
  have paths: "path_string (example_world t tmux) ''/srv'' [''.tmux''] = ''/srv/.tmux''"
    "path_string (example_world t tmux) ''/srv'' [''a'', ''b'', ''.tmux''] = ''/srv/a/b/.tmux''"
    "path_string (example_world t tmux) ''/srv'' [''z'', ''.tmux''] = ''/srv/z/.tmux''"
    for t tmux
    by (simp_all add: path_string_def example_world_def join_slash_def PathSeparator_def)
  show ?thesis
    using l1 g1 l2 names_ok_example_tree first_error_example_tree names_ok_link_tree link(1)
    by (simp add: descriptors_example_tree link(2) paths print_path_def)
qed

text \<open>
  The claim as stated: with the depth of a file read as the number of directories between
  the root and the file, a regular descriptor three directories below the root is within the
  bound, yet \<^verbatim>\<open>ListScripts\<close> does not return it; and a symbolic link named \<^verbatim>\<open>.tmux\<close> is
  no regular file, yet \<^verbatim>\<open>ListScripts\<close> returns it.
\<close>

theorem directory_levels_counterexample:
  "regular_descriptors_by_level 3 deep_tree = [[''a'', ''b'', ''c'', ''.tmux'']]
   \<and> ListScripts (example_world deep_tree tmux_running) ''/srv'' = ([], None)
   \<and> regular_descriptors_by_level 3 link_tree = []
   \<and> ListScripts (example_world link_tree tmux_running) ''/srv'' = ([''/srv/.tmux''], None)"
proof -
  have "regular_descriptors_by_level 3 deep_tree = [[''a'', ''b'', ''c'', ''.tmux'']]"
    by (simp add: regular_descriptors_by_level_def deep_tree_def directory_levels_def)
  moreover have "regular_descriptors_by_level 3 link_tree = []"
    by (simp add: regular_descriptors_by_level_def link_tree_def)
  ultimately show ?thesis
    by (simp add: ListScripts_deep_tree ListScripts_link_tree)
qed

text \<open>
  Claim C10. When the walk reaches an entry with an I/O error (anywhere among the entries of
  directories at depth at most 3, not only at the root), the walk stops there:
  \<^verbatim>\<open>ListScripts\<close> returns the first such error, together with the descriptors met before it
  and none of those after it; and \<^verbatim>\<open>main\<close> prints the error and exits with code 1 without
  doing anything else, so that the descriptors found are not shown.
\<close>

theorem walk_error_is_fatal:
  assumes "names_ok (os_Lstat_tree w root)"
    and "first_error 0 (os_Lstat_tree w root) = Some e"
  shows "ListScripts w root =
           (map (path_string w root) (descriptors_before_error [] (os_Lstat_tree w root)),
            Some e)
         \<and> (\<not> (length (os_Args w) > 1 \<and> os_Args w ! 1 = ''init'')
              \<longrightarrow> ReadConfig w = Inr config \<longrightarrow> config ''TP_DIRECTORY'' = Some root
              \<longrightarrow> os_Stat w root = Inr True
              \<longrightarrow> main w = (1, [Print (''Error listing scripts: '' @ e @ [newline])]))"
proof -
  have "fst (Walk listFn (os_Lstat_tree w root) []) = Some e"
    using assms by (simp add: Walk_listFn_error)
  moreover have "snd (Walk listFn (os_Lstat_tree w root) []) =
                   descriptors_before_error [] (os_Lstat_tree w root)"
    using assms(1) by (rule Walk_listFn_found)
  ultimately have l: "ListScripts w root =
           (map (path_string w root) (descriptors_before_error [] (os_Lstat_tree w root)),
            Some e)"
    by (cases "Walk listFn (os_Lstat_tree w root) []") (simp add: ListScripts_def)
  then show ?thesis
    by (simp add: main_lists_scripts)
qed

theorem walk_error_is_fatal_witness:
  "names_ok broken_tree \<and> first_error 0 broken_tree = Some ''permission denied''
   \<and> ListScripts (example_world broken_tree tmux_running) ''/srv'' =
       ([''/srv/.tmux'', ''/srv/a/.tmux''], Some ''permission denied'')
   \<and> main (example_world broken_tree tmux_running) =
       (1, [Print (''Error listing scripts: permission denied'' @ [newline])])"
proof -
  let ?w = "example_world broken_tree tmux_running"
  have tree: "os_Lstat_tree ?w ''/srv'' = broken_tree"
    and args: "\<not> (length (os_Args ?w) > 1 \<and> os_Args ?w ! 1 = ''init'')"
    and stat: "os_Stat ?w ''/srv'' = Inr True"
    by (simp_all add: example_world_def)
  have paths: "map (path_string ?w ''/srv'') [[''.tmux''], [''a'', ''.tmux'']] =
                 [''/srv/.tmux'', ''/srv/a/.tmux'']"
    by (simp add: path_string_def example_world_def join_slash_def PathSeparator_def)
  show ?thesis
    using walk_error_is_fatal [of ?w "''/srv''" "''permission denied''"
        "config_of_data example_conf"]
      names_ok_broken_tree first_error_broken_tree example_ReadConfig example_conf_root
      args stat
    by (simp only: tree found_broken_tree paths) simp
qed

section \<open>Creating a session\<close>



lemma example_createSession:
  "createSession (example_world t tmux_fresh) example_session ''/proj'' [] =
     (None, map Exec (session_commands example_session ''/proj''))"
proof -
  have "\<And>tr' argv. argv \<in> set (session_commands example_session ''/proj'')
          \<Longrightarrow> run_tmux (example_world t tmux_fresh) tr' argv = None"
    by (auto simp add: example_commands example_world_def tmux_fresh_def)
  then show ?thesis
    using createSession_succeeds [of example_session "''/proj''" "example_world t tmux_fresh" "[]"]
    by simp
qed

lemma itoa_1: "itoa 1 = ''1''"
  by (simp add: itoa.simps digit_def)

lemma example_createSession_base_1:
  "createSession (example_world t tmux_base_1) example_session ''/proj'' [] =
     (Some ''failed to create window: exit status 1'',
      [Exec [''tmux'', ''new-session'', ''-d'', ''-s'', ''s''],
       Exec [''tmux'', ''rename-window'', ''-t'', ''s:0'', ''w1'']])"
  by (simp add: createSession_def Run_def example_world_def tmux_base_1_def example_session_def
      itoa_0)

lemma attach_or_create_existing:
  assumes "run_tmux w tr [''tmux'', ''has-session'', ''-t'', SessionName session] = None"
  shows "tmux_commands (snd (attach_or_create w session basePath tr)) =
           tmux_commands tr @ [[''tmux'', ''has-session'', ''-t'', SessionName session],
                               [''tmux'', ''attach-session'', ''-t'', SessionName session]]"
proof -
  let ?tr1 = "tr @ [Exec [''tmux'', ''has-session'', ''-t'', SessionName session],
                    Print (''Session '' @ SessionName session
                           @ '' already exists. Attaching to it.'' @ [newline])]"
  obtain r tr2 where a: "attachSession w (SessionName session) ?tr1 = (r, tr2)"
    by (cases "attachSession w (SessionName session) ?tr1")
  with attachSession_trace [of w "SessionName session" ?tr1]
  have tr2: "tr2 = ?tr1 @ [Print (''Attempting to attach to session: '' @ SessionName session
                                   @ [newline]),
                           ExecAttached [''tmux'', ''attach-session'', ''-t'', SessionName session]
                             ''TERM=xterm-256color'']"
    by simp
  have "snd (attach_or_create w session basePath tr) =
          tr2 @ (case r of None \<Rightarrow> []
                 | Some err \<Rightarrow> [Print (''Error attaching to session: '' @ err @ [newline])])"
    using assms a by (simp add: attach_or_create_def sessionExists_def Run_def split: option.splits)
  then show ?thesis
    by (simp add: tr2 tmux_commands_append split: option.splits)
qed

lemma attach_or_create_absent:
  assumes "run_tmux w tr [''tmux'', ''has-session'', ''-t'', SessionName session] \<noteq> None"
  shows "\<exists>rest. tmux_commands (snd (attach_or_create w session basePath tr)) =
           tmux_commands tr @ [[''tmux'', ''has-session'', ''-t'', SessionName session],
                               [''tmux'', ''new-session'', ''-d'', ''-s'', SessionName session]]
           @ rest"
proof -
  let ?tr1 = "tr @ [Exec [''tmux'', ''has-session'', ''-t'', SessionName session]]"
  obtain k where k: "snd (createSession w session basePath ?tr1) =
                       ?tr1 @ map Exec (take (Suc k) (session_commands session basePath))"
    using createSession_trace by blast
  obtain r tr2 where c: "createSession w session basePath ?tr1 = (r, tr2)"
    by (cases "createSession w session basePath ?tr1")
  have tr2: "tmux_commands tr2 =
               tmux_commands tr @ [[''tmux'', ''has-session'', ''-t'', SessionName session],
                 [''tmux'', ''new-session'', ''-d'', ''-s'', SessionName session]]
               @ take k (windows_commands session basePath 0 (Windows session))"
    using k c by (simp add: tmux_commands_append tmux_commands_Exec session_commands_def)
  have "\<exists>more. snd (attach_or_create w session basePath tr) = tr2 @ more"
    using assms c attachSession_trace [of w "SessionName session" tr2]
    by (cases "attachSession w (SessionName session) tr2")
       (auto simp add: attach_or_create_def sessionExists_def Run_def split: option.splits)
  then obtain more where "snd (attach_or_create w session basePath tr) = tr2 @ more"
    by blast
  then show ?thesis
    by (simp add: tmux_commands_append tr2)
qed

lemma run_tmux_example: "run_tmux (example_world t tmux) = tmux"
  by (simp add: example_world_def)

lemma two_windows_commands:
  "session_commands two_windows ''/proj'' =
     [[''tmux'', ''new-session'', ''-d'', ''-s'', ''s''],
      [''tmux'', ''rename-window'', ''-t'', ''s:0'', ''w1''],
      [''tmux'', ''send-keys'', ''-t'', ''s:0'', ''cd /proj'', ''C-m''],
      [''tmux'', ''send-keys'', ''-t'', ''s:0'', ''echo hi'', ''C-m''],
      [''tmux'', ''new-window'', ''-t'', ''s'', ''-n'', ''w2''],
      [''tmux'', ''send-keys'', ''-t'', ''s:1'', ''cd /proj'', ''C-m''],
      [''tmux'', ''send-keys'', ''-t'', ''s:1'', ''ls'', ''C-m'']]"
  using itoa_1
  by (simp add: session_commands_def windows_commands_def window_commands_def
      window_target_def two_windows_def itoa_0)

lemma session_commands_explicit:
  "session_commands session basePath =
     [''tmux'', ''new-session'', ''-d'', ''-s'', SessionName session]
     # concat (map (\<lambda>(i, window).
          [if i = 0
           then [''tmux'', ''rename-window'', ''-t'', SessionName session @ '':'' @ itoa i,
                 Name window]
           else [''tmux'', ''new-window'', ''-t'', SessionName session, ''-n'', Name window],
           [''tmux'', ''send-keys'', ''-t'', SessionName session @ '':'' @ itoa i,
            ''cd '' @ basePath, ''C-m'']]
          @ map (\<lambda>cmdStr. [''tmux'', ''send-keys'', ''-t'', SessionName session @ '':'' @ itoa i,
                            cmdStr, ''C-m''])
              (Commands window))
        (enumerate 0 (Windows session)))"
proof -
  have "(\<lambda>(i, window). window_commands session basePath i window) =
        (\<lambda>(i, window).
          [if i = 0
           then [''tmux'', ''rename-window'', ''-t'', SessionName session @ '':'' @ itoa i,
                 Name window]
           else [''tmux'', ''new-window'', ''-t'', SessionName session, ''-n'', Name window],
           [''tmux'', ''send-keys'', ''-t'', SessionName session @ '':'' @ itoa i,
            ''cd '' @ basePath, ''C-m'']]
          @ map (\<lambda>cmdStr. [''tmux'', ''send-keys'', ''-t'', SessionName session @ '':'' @ itoa i,
                            cmdStr, ''C-m''])
              (Commands window))"
    by (rule ext) (simp add: window_commands_def window_target_def split: prod.splits)
  then show ?thesis
    by (simp only: session_commands_def windows_commands_def)
qed

lemma new_commands_ok:
  assumes "fst (createSession w session basePath tr) = None"
  shows "tmux_commands (drop (length tr) (snd (createSession w session basePath tr))) =
           session_commands session basePath"
  using createSession_ok [OF assms] by (simp add: tmux_commands_Exec)

lemma new_commands_any:
  "\<exists>k. tmux_commands (drop (length tr) (snd (createSession w session basePath tr))) =
         take (Suc k) (session_commands session basePath)"
proof -
  obtain k where "snd (createSession w session basePath tr) =
                    tr @ map Exec (take (Suc k) (session_commands session basePath))"
    using createSession_trace by blast
  then have "tmux_commands (drop (length tr) (snd (createSession w session basePath tr))) =
               take (Suc k) (session_commands session basePath)"
    by (simp add: tmux_commands_Exec)
  then show ?thesis by blast
qed

lemma two_windows_createSession:
  "createSession (example_world t tmux_fresh) two_windows ''/proj'' [] =
     (None, map Exec (session_commands two_windows ''/proj''))"
proof -
  have "\<And>tr' argv. argv \<in> set (session_commands two_windows ''/proj'')
          \<Longrightarrow> run_tmux (example_world t tmux_fresh) tr' argv = None"
    by (auto simp add: two_windows_commands run_tmux_example tmux_fresh_def)
  then show ?thesis
    using createSession_succeeds [of two_windows "''/proj''" "example_world t tmux_fresh" "[]"]
    by simp
qed

lemma map_filter_take: "\<exists>j. List.map_filter f (take k xs) = take j (List.map_filter f xs)"
proof (induction xs arbitrary: k)
  case Nil
  then show ?case by (simp add: List.map_filter_simps)
next
  case (Cons x xs)
  show ?case
  proof (cases k)
    case 0
    then have "List.map_filter f (take k (x # xs)) = take 0 (List.map_filter f (x # xs))"
      by (simp add: List.map_filter_simps)
    then show ?thesis by blast
  next
    case (Suc k')
    from Cons.IH [of k'] obtain j where j: "List.map_filter f (take k' xs) =
                                            take j (List.map_filter f xs)"
      by blast
    have "List.map_filter f (take k (x # xs)) =
            take (case f x of None \<Rightarrow> j | Some y \<Rightarrow> Suc j) (List.map_filter f (x # xs))"
      using Suc j by (simp add: List.map_filter_simps split: option.splits)
    then show ?thesis by blast
  qed
qed

lemma targets_of_session:
  "List.map_filter addressed_window (session_commands session basePath) =
     concat (map (\<lambda>(i, window).
                    replicate ((if i = 0 then 2 else 1) + length (Commands window))
                      (SessionName session @ '':'' @ itoa i))
                 (enumerate 0 (Windows session)))"
  using targets_of_windows [of session basePath 0 "Windows session"]
  by (simp add: session_commands_def List.map_filter_simps addressed_window_def
      window_target_def)

lemma run_all_second:
  assumes "run_tmux w tr c0 = None"
  shows "take 2 (tmux_commands (drop (length tr) (snd (run_all w (c0 # c1 # cmds) tr)))) =
           [c0, c1]"
proof -
  let ?tr2 = "tr @ [Exec c0, Exec c1]"
  have "\<exists>k. snd (run_all w (c0 # c1 # cmds) tr) = ?tr2 @ map Exec (take k cmds)"
  proof (cases "run_tmux w (tr @ [Exec c0]) c1")
    case None
    obtain k where "snd (run_all w cmds ?tr2) = ?tr2 @ map Exec (take k cmds)"
      using run_all_trace by blast
    with assms None have "snd (run_all w (c0 # c1 # cmds) tr) = ?tr2 @ map Exec (take k cmds)"
      by (simp add: Run_def)
    then show ?thesis by blast
  next
    case (Some e)
    with assms have "snd (run_all w (c0 # c1 # cmds) tr) = ?tr2 @ map Exec (take 0 cmds)"
      by (simp add: Run_def)
    then show ?thesis by blast
  qed
  then obtain k where "snd (run_all w (c0 # c1 # cmds) tr) = ?tr2 @ map Exec (take k cmds)"
    by blast
  then show ?thesis by simp
qed

lemma createSession_renames_first:
  assumes "Windows session = window # windows"
    and "run_tmux w tr [''tmux'', ''new-session'', ''-d'', ''-s'', SessionName session] = None"
  shows "take 2 (tmux_commands (drop (length tr) (snd (createSession w session basePath tr)))) =
           [[''tmux'', ''new-session'', ''-d'', ''-s'', SessionName session],
            [''tmux'', ''rename-window'', ''-t'', SessionName session @ '':'' @ itoa 0,
             Name window]]"
proof -
  have cmds: "session_commands session basePath =
          [''tmux'', ''new-session'', ''-d'', ''-s'', SessionName session]
          # [''tmux'', ''rename-window'', ''-t'', SessionName session @ '':'' @ itoa 0, Name window]
          # tl (tl (session_commands session basePath))"
    using assms(1)
    by (simp add: session_commands_def windows_commands_def window_commands_def
        window_target_def)
  define c1 where "c1 = [''tmux'', ''rename-window'', ''-t'',
                          SessionName session @ '':'' @ itoa 0, Name window]"
  define rest where "rest = tl (tl (session_commands session basePath))"
  have run: "snd (createSession w session basePath tr) =
          snd (run_all w (session_commands session basePath) tr)"
    using createSession_run_all by blast
  have "session_commands session basePath =
          [''tmux'', ''new-session'', ''-d'', ''-s'', SessionName session] # c1 # rest"
    using cmds by (simp only: c1_def rest_def)
  with run have "snd (createSession w session basePath tr) =
          snd (run_all w ([''tmux'', ''new-session'', ''-d'', ''-s'', SessionName session]
                          # c1 # rest) tr)"
    by (simp only:)
  then have "take 2 (tmux_commands (drop (length tr) (snd (createSession w session basePath tr))))
               = [[''tmux'', ''new-session'', ''-d'', ''-s'', SessionName session], c1]"
    using run_all_second [OF assms(2), of c1 rest] by (simp only:)
  then show ?thesis by (simp only: c1_def)
qed

lemma two_windows_base_1:
  "fst (createSession (example_world t tmux_base_1) two_windows ''/proj'' []) =
     Some ''failed to create window: exit status 1''"
  by (simp add: createSession_def Run_def run_tmux_example tmux_base_1_def two_windows_def
      itoa_0 Let_def)

text \<open>
  Claim C3, amended. When \<^verbatim>\<open>createSession\<close> succeeds on a descriptor with \<open>N\<close> windows, it
  has run exactly these commands in this order: new-session, then for each window in the
  order of the descriptor its rename-window (position 0) or new-window (every later
  position), one send-keys of \<^verbatim>\<open>cd basePath\<close>, and the window's own commands, one send-keys
  each. So there are exactly \<open>N\<close> rename-or-new-window commands, and the send-keys are the
  commands of the descriptor and \<open>N\<close> more: one directory change per window, \<open>N\<close> and not
  \<open>N + 1\<close>, each right after the window is renamed or created and before the window's own
  commands. (Counted by their text, the send-keys of \<^verbatim>\<open>cd basePath\<close> are these \<open>N\<close> and the
  commands of the descriptor that read the same.)
\<close>

theorem createSession_commands_per_window:
  assumes "fst (createSession w session basePath tr) = None"
  shows "snd (createSession w session basePath tr) =
           tr @ map Exec
             ([''tmux'', ''new-session'', ''-d'', ''-s'', SessionName session]
              # concat (map (\<lambda>(i, window).
                   [if i = 0
                    then [''tmux'', ''rename-window'', ''-t'',
                          SessionName session @ '':'' @ itoa i, Name window]
                    else [''tmux'', ''new-window'', ''-t'', SessionName session,
                          ''-n'', Name window],
                    [''tmux'', ''send-keys'', ''-t'', SessionName session @ '':'' @ itoa i,
                     ''cd '' @ basePath, ''C-m'']]
                   @ map (\<lambda>cmdStr. [''tmux'', ''send-keys'', ''-t'',
                                     SessionName session @ '':'' @ itoa i, cmdStr, ''C-m''])
                       (Commands window))
                 (enumerate 0 (Windows session))))
         \<and> length (filter is_window_op
               (tmux_commands (drop (length tr) (snd (createSession w session basePath tr))))) =
             length (Windows session)
         \<and> length (filter is_send_keys
               (tmux_commands (drop (length tr) (snd (createSession w session basePath tr))))) =
             length (Windows session)
             + sum_list (map (\<lambda>window. length (Commands window)) (Windows session))
         \<and> length (filter (is_cd basePath)
               (tmux_commands (drop (length tr) (snd (createSession w session basePath tr))))) =
             length (Windows session)
             + count_list (concat (map Commands (Windows session))) (''cd '' @ basePath)"
proof -
  have "snd (createSession w session basePath tr) =
          tr @ map Exec (session_commands session basePath)"
    using assms by (rule createSession_ok)
  then have trace: "snd (createSession w session basePath tr) =
           tr @ map Exec
             ([''tmux'', ''new-session'', ''-d'', ''-s'', SessionName session]
              # concat (map (\<lambda>(i, window).
                   [if i = 0
                    then [''tmux'', ''rename-window'', ''-t'',
                          SessionName session @ '':'' @ itoa i, Name window]
                    else [''tmux'', ''new-window'', ''-t'', SessionName session,
                          ''-n'', Name window],
                    [''tmux'', ''send-keys'', ''-t'', SessionName session @ '':'' @ itoa i,
                     ''cd '' @ basePath, ''C-m'']]
                   @ map (\<lambda>cmdStr. [''tmux'', ''send-keys'', ''-t'',
                                     SessionName session @ '':'' @ itoa i, cmdStr, ''C-m''])
                       (Commands window))
                 (enumerate 0 (Windows session))))"
    by (simp only: session_commands_explicit)
  note new = new_commands_ok [OF assms]
  have ops: "length (filter is_window_op
               (tmux_commands (drop (length tr) (snd (createSession w session basePath tr))))) =
             length (Windows session)"
    unfolding new
    by (simp add: session_commands_def window_ops_of_windows is_window_op_def)
  have keys: "length (filter is_send_keys
               (tmux_commands (drop (length tr) (snd (createSession w session basePath tr))))) =
             length (Windows session)
             + sum_list (map (\<lambda>window. length (Commands window)) (Windows session))"
    unfolding new
    by (simp add: session_commands_def send_keys_of_windows is_send_keys_def)
  have cds: "length (filter (is_cd basePath)
               (tmux_commands (drop (length tr) (snd (createSession w session basePath tr))))) =
             length (Windows session)
             + count_list (concat (map Commands (Windows session))) (''cd '' @ basePath)"
    unfolding new
    by (simp add: session_commands_def cd_of_windows is_cd_def is_send_keys_def)
  from trace ops keys cds show ?thesis
    by (intro conjI)
qed

theorem createSession_commands_per_window_witness:
  "fst (createSession (example_world example_tree tmux_fresh) two_windows ''/proj'' []) = None
   \<and> snd (createSession (example_world example_tree tmux_fresh) two_windows ''/proj'' []) =
       [Exec [''tmux'', ''new-session'', ''-d'', ''-s'', ''s''],
        Exec [''tmux'', ''rename-window'', ''-t'', ''s:0'', ''w1''],
        Exec [''tmux'', ''send-keys'', ''-t'', ''s:0'', ''cd /proj'', ''C-m''],
        Exec [''tmux'', ''send-keys'', ''-t'', ''s:0'', ''echo hi'', ''C-m''],
        Exec [''tmux'', ''new-window'', ''-t'', ''s'', ''-n'', ''w2''],
        Exec [''tmux'', ''send-keys'', ''-t'', ''s:1'', ''cd /proj'', ''C-m''],
        Exec [''tmux'', ''send-keys'', ''-t'', ''s:1'', ''ls'', ''C-m'']]
   \<and> length (filter is_window_op
         (tmux_commands
            (snd (createSession (example_world example_tree tmux_fresh) two_windows
                    ''/proj'' [])))) = 2
   \<and> length (filter is_send_keys
         (tmux_commands
            (snd (createSession (example_world example_tree tmux_fresh) two_windows
                    ''/proj'' [])))) = 4"
proof -
  let ?run = "createSession (example_world example_tree tmux_fresh) two_windows ''/proj'' []"
  have ok: "fst ?run = None"
    by (simp add: two_windows_createSession)
  have windows: "length (Windows two_windows) = 2"
    "sum_list (map (\<lambda>window. length (Commands window)) (Windows two_windows)) = 2"
    by (simp_all add: two_windows_def)
  have name: "SessionName two_windows = ''s''"
    by (simp add: two_windows_def)
  note t = createSession_commands_per_window [OF ok]
  have ops: "length (filter is_window_op (tmux_commands (snd ?run))) =
               length (Windows two_windows)"
    using t [THEN conjunct2, THEN conjunct1] by simp
  have keys: "length (filter is_send_keys (tmux_commands (snd ?run))) =
                length (Windows two_windows)
                + sum_list (map (\<lambda>window. length (Commands window)) (Windows two_windows))"
    using t [THEN conjunct2, THEN conjunct2, THEN conjunct1] by simp
  have "snd ?run = [] @ map Exec (session_commands two_windows ''/proj'')"
    unfolding session_commands_explicit by (rule t [THEN conjunct1])
  then have trace: "snd ?run =
       [Exec [''tmux'', ''new-session'', ''-d'', ''-s'', ''s''],
        Exec [''tmux'', ''rename-window'', ''-t'', ''s:0'', ''w1''],
        Exec [''tmux'', ''send-keys'', ''-t'', ''s:0'', ''cd /proj'', ''C-m''],
        Exec [''tmux'', ''send-keys'', ''-t'', ''s:0'', ''echo hi'', ''C-m''],
        Exec [''tmux'', ''new-window'', ''-t'', ''s'', ''-n'', ''w2''],
        Exec [''tmux'', ''send-keys'', ''-t'', ''s:1'', ''cd /proj'', ''C-m''],
        Exec [''tmux'', ''send-keys'', ''-t'', ''s:1'', ''ls'', ''C-m'']]"
    by (simp add: two_windows_commands)
  from ok trace ops keys show ?thesis
    by (simp only: windows) simp
qed

text \<open>The claim as stated asks for \<open>N + 1\<close> directory changes. The one-window scenario has
  one, and two send-keys in all, where \<open>N + 1\<close> directory changes and the one command of the
  descriptor would make three.\<close>

theorem one_cd_per_window_counterexample:
  "fst (createSession (example_world example_tree tmux_fresh) example_session ''/proj'' []) = None
   \<and> length (filter (is_cd ''/proj'')
        (tmux_commands
           (snd (createSession (example_world example_tree tmux_fresh) example_session
                   ''/proj'' [])))) \<noteq> length (Windows example_session) + 1
   \<and> length (filter is_send_keys
        (tmux_commands
           (snd (createSession (example_world example_tree tmux_fresh) example_session
                   ''/proj'' [])))) \<noteq>
       (length (Windows example_session) + 1)
       + sum_list (map (\<lambda>window. length (Commands window)) (Windows example_session))"
proof -
  have "length (Windows example_session) + 1 = 2"
    "sum_list (map (\<lambda>window. length (Commands window)) (Windows example_session)) = 1"
    by (simp_all add: example_session_def)
  then show ?thesis
    by (simp add: example_createSession tmux_commands_Exec example_commands is_cd_def
        is_send_keys_def)
qed

text \<open>
  Claim C4, amended. The window a rename-window or send-keys command is addressed to is
  always the session name, a colon and the position of the window in the descriptor counted
  from 0: the base index of the multiplexer is not consulted. In every run and every world,
  whether the run succeeds or stops at a failed command, the targets addressed are, in
  order, a first part of the list that holds the target of window \<open>i\<close> once for each command
  sent to it (new-window is addressed to the session), and all of that list when the run
  succeeds. As soon as the session is created, the first window is renamed at position 0.
\<close>

theorem window_targets_count_from_zero:
  "(\<exists>k. List.map_filter addressed_window
           (tmux_commands (drop (length tr) (snd (createSession w session basePath tr)))) =
         take k (concat (map (\<lambda>(i, window).
                      replicate ((if i = 0 then 2 else 1) + length (Commands window))
                        (SessionName session @ '':'' @ itoa i))
                    (enumerate 0 (Windows session)))))
   \<and> (fst (createSession w session basePath tr) = None \<longrightarrow>
        List.map_filter addressed_window
          (tmux_commands (drop (length tr) (snd (createSession w session basePath tr)))) =
        concat (map (\<lambda>(i, window).
                      replicate ((if i = 0 then 2 else 1) + length (Commands window))
                        (SessionName session @ '':'' @ itoa i))
                    (enumerate 0 (Windows session))))
   \<and> (Windows session = window # windows \<longrightarrow>
        run_tmux w tr [''tmux'', ''new-session'', ''-d'', ''-s'', SessionName session] = None \<longrightarrow>
        take 2 (tmux_commands (drop (length tr) (snd (createSession w session basePath tr)))) =
          [[''tmux'', ''new-session'', ''-d'', ''-s'', SessionName session],
           [''tmux'', ''rename-window'', ''-t'', SessionName session @ '':'' @ itoa 0,
            Name window]])"
proof -
  let ?new = "tmux_commands (drop (length tr) (snd (createSession w session basePath tr)))"
  let ?targets = "concat (map (\<lambda>(i, window).
                      replicate ((if i = 0 then 2 else 1) + length (Commands window))
                        (SessionName session @ '':'' @ itoa i))
                    (enumerate 0 (Windows session)))"
  obtain k where k: "?new = take (Suc k) (session_commands session basePath)"
    using new_commands_any by blast
  obtain j where "List.map_filter addressed_window (take (Suc k) (session_commands session basePath))
                    = take j (List.map_filter addressed_window (session_commands session basePath))"
    using map_filter_take by blast
  with k have "List.map_filter addressed_window ?new = take j ?targets"
    by (simp only: targets_of_session)
  then have any: "\<exists>k. List.map_filter addressed_window ?new = take k ?targets"
    by blast
  have ok: "List.map_filter addressed_window ?new = ?targets"
    if "fst (createSession w session basePath tr) = None"
    using new_commands_ok [OF that] by (simp only: targets_of_session)
  have first: "take 2 ?new =
          [[''tmux'', ''new-session'', ''-d'', ''-s'', SessionName session],
           [''tmux'', ''rename-window'', ''-t'', SessionName session @ '':'' @ itoa 0,
            Name window]]"
    if "Windows session = window # windows"
      "run_tmux w tr [''tmux'', ''new-session'', ''-d'', ''-s'', SessionName session] = None"
    using that by (rule createSession_renames_first)
  from any ok first show ?thesis
    by (intro conjI impI)
qed

theorem window_targets_count_from_zero_witness:
  "run_tmux (example_world example_tree tmux_base_1) []
     [''tmux'', ''new-session'', ''-d'', ''-s'', ''s''] = None
   \<and> fst (createSession (example_world example_tree tmux_base_1) two_windows ''/proj'' [])
       \<noteq> None
   \<and> take 2 (tmux_commands
        (snd (createSession (example_world example_tree tmux_base_1) two_windows ''/proj'' [])))
       = [[''tmux'', ''new-session'', ''-d'', ''-s'', ''s''],
          [''tmux'', ''rename-window'', ''-t'', ''s:0'', ''w1'']]
   \<and> fst (createSession (example_world example_tree tmux_fresh) two_windows ''/proj'' []) = None
   \<and> List.map_filter addressed_window
        (tmux_commands
           (snd (createSession (example_world example_tree tmux_fresh) two_windows ''/proj'' [])))
       = [''s:0'', ''s:0'', ''s:0'', ''s:1'', ''s:1'']"
proof -
  let ?b = "example_world example_tree tmux_base_1"
  let ?f = "example_world example_tree tmux_fresh"
  have name: "SessionName two_windows = ''s''"
    and windows: "Windows two_windows =
           \<lparr>Name = ''w1'', Commands = [''echo hi'']\<rparr> # [\<lparr>Name = ''w2'', Commands = [''ls'']\<rparr>]"
    by (simp_all add: two_windows_def)
  have created: "run_tmux ?b [] [''tmux'', ''new-session'', ''-d'', ''-s'', SessionName two_windows]
                   = None"
    by (simp add: run_tmux_example tmux_base_1_def name)
  have ok: "fst (createSession ?f two_windows ''/proj'' []) = None"
    by (simp add: two_windows_createSession)
  note b = window_targets_count_from_zero [of "[]" ?b two_windows "''/proj''"
      "\<lparr>Name = ''w1'', Commands = [''echo hi'']\<rparr>" "[\<lparr>Name = ''w2'', Commands = [''ls'']\<rparr>]"]
  note f = window_targets_count_from_zero [of "[]" ?f two_windows "''/proj''"]
  have first: "take 2 (tmux_commands (snd (createSession ?b two_windows ''/proj'' []))) =
                 [[''tmux'', ''new-session'', ''-d'', ''-s'', SessionName two_windows],
                  [''tmux'', ''rename-window'', ''-t'', SessionName two_windows @ '':'' @ itoa 0,
                   Name \<lparr>Name = ''w1'', Commands = [''echo hi'']\<rparr>]]"
    using b [THEN conjunct2, THEN conjunct2] windows created by simp
  have targets: "List.map_filter addressed_window
                   (tmux_commands (snd (createSession ?f two_windows ''/proj'' []))) =
                 concat (map (\<lambda>(i, window).
                      replicate ((if i = 0 then 2 else 1) + length (Commands window))
                        (SessionName two_windows @ '':'' @ itoa i))
                    (enumerate 0 (Windows two_windows)))"
    using f [THEN conjunct2, THEN conjunct1] ok by simp
  have "concat (map (\<lambda>(i, window).
                      replicate ((if i = 0 then 2 else 1) + length (Commands window))
                        (SessionName two_windows @ '':'' @ itoa i))
                    (enumerate 0 (Windows two_windows))) =
        [''s:0'', ''s:0'', ''s:0'', ''s:1'', ''s:1'']"
    using itoa_1 by (simp add: two_windows_def itoa_0 numeral_2_eq_2)
  with first targets ok created show ?thesis
    by (simp add: name itoa_0 two_windows_base_1)
qed

text \<open>With a multiplexer whose base index is 1 the claim asks for the target \<^verbatim>\<open>s:1\<close> at
  position 0; the command sent is addressed to \<^verbatim>\<open>s:0\<close> (and fails there).\<close>

theorem base_index_counterexample:
  "addressed_window
     (last (tmux_commands
        (snd (createSession (example_world example_tree tmux_base_1) example_session
                ''/proj'' [])))) = Some ''s:0''
   \<and> based_target 1 example_session 0 = ''s:1''"
proof -
  have "tmux_commands
          (snd (createSession (example_world example_tree tmux_base_1) example_session
                  ''/proj'' [])) =
        [[''tmux'', ''new-session'', ''-d'', ''-s'', ''s''],
         [''tmux'', ''rename-window'', ''-t'', ''s:0'', ''w1'']]"
    by (simp add: example_createSession_base_1)
  moreover have "based_target 1 example_session 0 = ''s:1''"
    using itoa_1 by (simp add: based_target_def example_session_def)
  ultimately show ?thesis
    by (simp add: addressed_window_def)
qed

text \<open>
  Claim C6. When \<^verbatim>\<open>has-session\<close> succeeds, the only \<^verbatim>\<open>tmux\<close> commands of the run are that
  check and attach-session: no new-session, rename-window, new-window or send-keys. When
  \<^verbatim>\<open>has-session\<close> fails, with whatever error, the session is taken as absent: the next command
  is new-session.
\<close>

theorem existing_session_is_only_attached:
  "(run_tmux w tr [''tmux'', ''has-session'', ''-t'', SessionName session] = None \<longrightarrow>
      tmux_commands (snd (attach_or_create w session basePath tr)) =
        tmux_commands tr @ [[''tmux'', ''has-session'', ''-t'', SessionName session],
                            [''tmux'', ''attach-session'', ''-t'', SessionName session]])
   \<and> (run_tmux w tr [''tmux'', ''has-session'', ''-t'', SessionName session] \<noteq> None \<longrightarrow>
      (\<exists>rest. tmux_commands (snd (attach_or_create w session basePath tr)) =
         tmux_commands tr @ [[''tmux'', ''has-session'', ''-t'', SessionName session],
                             [''tmux'', ''new-session'', ''-d'', ''-s'', SessionName session]]
         @ rest))"
  using attach_or_create_existing attach_or_create_absent by blast

theorem existing_session_is_only_attached_witness:
  "run_tmux (example_world example_tree tmux_running) []
     [''tmux'', ''has-session'', ''-t'', SessionName example_session] = None
   \<and> tmux_commands (snd (attach_or_create (example_world example_tree tmux_running)
                             example_session ''/proj'' [])) =
       [[''tmux'', ''has-session'', ''-t'', ''s''], [''tmux'', ''attach-session'', ''-t'', ''s'']]
   \<and> run_tmux (example_world example_tree tmux_fresh) []
        [''tmux'', ''has-session'', ''-t'', SessionName example_session] \<noteq> None
   \<and> take 2 (tmux_commands (snd (attach_or_create (example_world example_tree tmux_fresh)
                                     example_session ''/proj'' []))) =
       [[''tmux'', ''has-session'', ''-t'', ''s''],
        [''tmux'', ''new-session'', ''-d'', ''-s'', ''s'']]"
proof -
  have name: "SessionName example_session = ''s''"
    by (simp add: example_session_def)
  have running: "run_tmux (example_world example_tree tmux_running) []
                   [''tmux'', ''has-session'', ''-t'', SessionName example_session] = None"
    by (simp add: example_world_def tmux_running_def)
  have fresh: "run_tmux (example_world example_tree tmux_fresh) []
                 [''tmux'', ''has-session'', ''-t'', SessionName example_session] \<noteq> None"
    by (simp add: example_world_def tmux_fresh_def)
  show ?thesis
    using running fresh
      existing_session_is_only_attached [of "example_world example_tree tmux_running" "[]"
        example_session "''/proj''"]
      existing_session_is_only_attached [of "example_world example_tree tmux_fresh" "[]"
        example_session "''/proj''"]
    by (auto simp add: name)
qed

lemma fzf_calls_createSession:
  "fzf_calls (snd (createSession w session basePath tr)) = fzf_calls tr"
proof -
  obtain k where "snd (createSession w session basePath tr) =
                    tr @ map Exec (take (Suc k) (session_commands session basePath))"
    using createSession_trace by blast
  then show ?thesis
    by (simp only: fzf_calls_append fzf_calls_Exec append_Nil2)
qed

lemma fzf_calls_attachSession:
  "fzf_calls (snd (attachSession w name tr)) = fzf_calls tr"
  by (simp add: attachSession_trace fzf_calls_append)

lemma fzf_calls_attach_or_create:
  "fzf_calls (snd (attach_or_create w session basePath tr)) = fzf_calls tr"
proof (cases "run_tmux w tr [''tmux'', ''has-session'', ''-t'', SessionName session]")
  case None
  let ?tr1 = "tr @ [Exec [''tmux'', ''has-session'', ''-t'', SessionName session],
                    Print (''Session '' @ SessionName session
                           @ '' already exists. Attaching to it.'' @ [newline])]"
  obtain r tr2 where a: "attachSession w (SessionName session) ?tr1 = (r, tr2)"
    by (cases "attachSession w (SessionName session) ?tr1")
  with fzf_calls_attachSession [of w "SessionName session" ?tr1]
  have "fzf_calls tr2 = fzf_calls tr"
    by (simp add: fzf_calls_append)
  with None a show ?thesis
    by (simp add: attach_or_create_def sessionExists_def Run_def fzf_calls_append
        split: option.splits)
next
  case (Some e)
  let ?tr1 = "tr @ [Exec [''tmux'', ''has-session'', ''-t'', SessionName session]]"
  obtain r tr2 where c: "createSession w session basePath ?tr1 = (r, tr2)"
    by (cases "createSession w session basePath ?tr1")
  with fzf_calls_createSession [of w session basePath ?tr1]
  have tr2: "fzf_calls tr2 = fzf_calls tr"
    by (simp add: fzf_calls_append)
  obtain r' tr3 where a: "attachSession w (SessionName session) tr2 = (r', tr3)"
    by (cases "attachSession w (SessionName session) tr2")
  with fzf_calls_attachSession [of w "SessionName session" tr2] tr2
  have "fzf_calls tr3 = fzf_calls tr"
    by simp
  with Some c a tr2 show ?thesis
    by (simp add: attach_or_create_def sessionExists_def Run_def fzf_calls_append
        split: option.splits)
qed

lemma fzf_calls_initTmuxConfig: "fzf_calls (snd (initTmuxConfig w [])) = []"
  by (simp add: initTmuxConfig_def split: sum.splits option.splits)

lemma fzf_calls_main: "[] \<notin> set (fzf_calls (snd (main w)))"
proof (cases "length (os_Args w) > 1 \<and> os_Args w ! 1 = ''init''")
  case True
  obtain r tr where i: "initTmuxConfig w [] = (r, tr)"
    by (cases "initTmuxConfig w []")
  with fzf_calls_initTmuxConfig [of w] have "fzf_calls tr = []" by simp
  with True i show ?thesis
    by (simp add: main_def fzf_calls_append split: option.splits)
next
  case False
  note notinit = this
  show ?thesis
  proof (cases "ReadConfig w")
    case (Inl err)
    with notinit show ?thesis by (auto simp add: main_def)
  next
    case (Inr config)
    note cfg = this
    show ?thesis
    proof (cases "config ''TP_DIRECTORY''")
      case None
      with notinit cfg show ?thesis by (auto simp add: main_def)
    next
      case (Some root)
      note root = this
      show ?thesis
      proof (cases "os_Stat w root = Inr True")
        case False
        with notinit cfg root show ?thesis by (auto simp add: main_def)
      next
        case True
        note m = main_lists_scripts [OF notinit cfg root True]
        obtain scripts err where l: "ListScripts w root = (scripts, err)"
          by (cases "ListScripts w root")
        show ?thesis
        proof (cases "err = None \<and> scripts \<noteq> []")
          case False
          with l show ?thesis
            by (cases err) (simp_all add: m)
        next
          case True
          have sel: "snd (SelectScriptWithFzf w scripts []) = [ExecFzf scripts]"
            by (simp add: SelectScriptWithFzf_def split: sum.splits)
          obtain r tr where s: "SelectScriptWithFzf w scripts [] = (r, tr)"
            by (cases "SelectScriptWithFzf w scripts []")
          with sel have tr: "tr = [ExecFzf scripts]" by simp
          show ?thesis
            using True l s tr
            by (auto simp add: m fzf_calls_append fzf_calls_attach_or_create
                split: sum.splits)
        qed
      qed
    qed
  qed
qed

lemma ListScripts_bare_tree: "ListScripts (example_world bare_tree tmux) ''/srv'' = ([], None)"
proof -
  have "names_ok bare_tree" "first_error 0 bare_tree = None"
    by (simp_all add: bare_tree_def PathSeparator_def)
  then have "Walk listFn bare_tree [] = (None, descriptors_below 3 [] bare_tree)"
    by (rule Walk_listFn)
  moreover have "descriptors_below 3 [] bare_tree = []"
    by (simp add: bare_tree_def descriptors_below_def is_descriptor_def)
  ultimately show ?thesis
    by (simp add: ListScripts_def example_world_def)
qed

section \<open>The pipeline\<close>

text \<open>
  Claim C8. When \<^verbatim>\<open>ListScripts\<close> returns no candidate, \<^verbatim>\<open>main\<close> prints that there is
  nothing to select and exits with code 1 without starting \<^verbatim>\<open>fzf\<close>; and in no run at all is
  \<^verbatim>\<open>fzf\<close> started with an empty list of candidates.
\<close>

theorem no_candidates_no_picker:
  "(\<not> (length (os_Args w) > 1 \<and> os_Args w ! 1 = ''init'')
      \<longrightarrow> ReadConfig w = Inr config \<longrightarrow> config ''TP_DIRECTORY'' = Some root
      \<longrightarrow> os_Stat w root = Inr True \<longrightarrow> ListScripts w root = ([], None)
      \<longrightarrow> main w = (1, [Print (''No .tmux scripts found.'' @ [newline])]))
   \<and> [] \<notin> set (fzf_calls (snd (main w)))"
  using main_lists_scripts [of w config root] fzf_calls_main [of w] by simp

theorem no_candidates_no_picker_witness:
  "ListScripts (example_world bare_tree tmux_running) ''/srv'' = ([], None)
   \<and> main (example_world bare_tree tmux_running) =
       (1, [Print (''No .tmux scripts found.'' @ [newline])])
   \<and> fzf_calls (snd (main (example_world bare_tree tmux_running))) = []
   \<and> [] \<notin> set (fzf_calls (snd (main (example_world example_tree tmux_running))))"
proof -
  let ?w = "example_world bare_tree tmux_running"
  have args: "\<not> (length (os_Args ?w) > 1 \<and> os_Args ?w ! 1 = ''init'')"
    and stat: "os_Stat ?w ''/srv'' = Inr True"
    by (simp_all add: example_world_def)
  have "main ?w = (1, [Print (''No .tmux scripts found.'' @ [newline])])"
    using no_candidates_no_picker [of ?w "config_of_data example_conf" "''/srv''"]
      args stat example_ReadConfig example_conf_root ListScripts_bare_tree
    by simp
  then show ?thesis
    using no_candidates_no_picker [of "example_world example_tree tmux_running"]
      ListScripts_bare_tree
    by simp
qed



lemma ListScripts_example_tree:
  "ListScripts (example_world example_tree tmux) ''/srv'' =
     ([''/srv/.tmux'', ''/srv/a/b/.tmux'', ''/srv/z/.tmux''], None)"
proof -
  have "Walk listFn example_tree [] = (None, descriptors_below 3 [] example_tree)"
    using names_ok_example_tree first_error_example_tree by (rule Walk_listFn)
  then show ?thesis
    by (simp add: ListScripts_def example_world_def descriptors_example_tree path_string_def
        join_slash_def PathSeparator_def)
qed

lemma TrimSpace_example: "TrimSpace (''/srv/.tmux'' @ [newline]) = ''/srv/.tmux''"
  by (simp add: TrimSpace_def space_runes_def asciiSpace_def HasPrefix_def newline_def)

lemma main_example:
  "main (example_world example_tree tmux) =
     attach_or_create (example_world example_tree tmux) example_session ''/proj''
       [ExecFzf [''/srv/.tmux'', ''/srv/a/b/.tmux'', ''/srv/z/.tmux'']]"
proof -
  let ?w = "example_world example_tree tmux"
  have args: "\<not> (length (os_Args ?w) > 1 \<and> os_Args ?w ! 1 = ''init'')"
    and stat: "os_Stat ?w ''/srv'' = Inr True"
    by (simp_all add: example_world_def)
  have sel: "SelectScriptWithFzf ?w [''/srv/.tmux'', ''/srv/a/b/.tmux'', ''/srv/z/.tmux''] [] =
               (Inr ''/srv/.tmux'', [ExecFzf [''/srv/.tmux'', ''/srv/a/b/.tmux'', ''/srv/z/.tmux'']])"
    using TrimSpace_example by (simp add: SelectScriptWithFzf_def example_world_def)
  have rd: "ReadSessionConfig ?w ''/srv/.tmux'' = Inr example_session"
    by (simp add: ReadSessionConfig_def example_world_def)
  have dir: "filepath_Dir ?w ''/srv/.tmux'' = ''/proj''"
    by (simp add: example_world_def)
  show ?thesis
    using main_lists_scripts [OF args example_ReadConfig example_conf_root stat]
    by (simp add: ListScripts_example_tree sel rd dir)
qed

text \<open>The last stage ends with exit code 1 only after a failed creation or a failed attach
  that follows a creation; it ends with 0 whenever the session exists.\<close>

lemma attach_or_create_exit_code:
  "fst (attach_or_create w session basePath tr) =
     (if run_tmux w tr [''tmux'', ''has-session'', ''-t'', SessionName session] = None then 0
      else if fst (createSession w session basePath
                     (tr @ [Exec [''tmux'', ''has-session'', ''-t'', SessionName session]])) \<noteq> None
        then 1
      else if fst (attachSession w (SessionName session)
                     (snd (createSession w session basePath
                        (tr @ [Exec [''tmux'', ''has-session'', ''-t'', SessionName session]]))))
              \<noteq> None
        then 1
      else 0)"
  by (auto simp add: attach_or_create_def sessionExists_def Run_def
      split: prod.splits option.splits)

text \<open>
  Claim C5, where the code departs from it. With the session already running and
  attach-session failing, \<^verbatim>\<open>main\<close> prints the diagnostic and ends with exit code 0; the same
  failure after the session was created ends with exit code 1.
\<close>

theorem attach_failure_exit_codes:
  "main (example_world example_tree tmux_no_terminal) =
     (0, [ExecFzf [''/srv/.tmux'', ''/srv/a/b/.tmux'', ''/srv/z/.tmux''],
          Exec [''tmux'', ''has-session'', ''-t'', ''s''],
          Print (''Session s already exists. Attaching to it.'' @ [newline]),
          Print (''Attempting to attach to session: s'' @ [newline]),
          ExecAttached [''tmux'', ''attach-session'', ''-t'', ''s''] ''TERM=xterm-256color'',
          Print (''Error attaching to session: failed to attach to session: exit status 1''
                 @ [newline])])
   \<and> fst (main (example_world example_tree tmux_fresh_no_terminal)) = 1
   \<and> last (snd (main (example_world example_tree tmux_fresh_no_terminal))) =
       Print (''Error attaching to session: failed to attach to session: exit status 1''
              @ [newline])"
proof -
  have name: "SessionName example_session = ''s''"
    by (simp add: example_session_def)
  have running: "attach_or_create (example_world example_tree tmux_no_terminal) example_session
          ''/proj'' [ExecFzf [''/srv/.tmux'', ''/srv/a/b/.tmux'', ''/srv/z/.tmux'']] =
     (0, [ExecFzf [''/srv/.tmux'', ''/srv/a/b/.tmux'', ''/srv/z/.tmux''],
          Exec [''tmux'', ''has-session'', ''-t'', ''s''],
          Print (''Session s already exists. Attaching to it.'' @ [newline]),
          Print (''Attempting to attach to session: s'' @ [newline]),
          ExecAttached [''tmux'', ''attach-session'', ''-t'', ''s''] ''TERM=xterm-256color'',
          Print (''Error attaching to session: failed to attach to session: exit status 1''
                 @ [newline])])"
    by (simp add: attach_or_create_def sessionExists_def Run_def attachSession_def Let_def name
        run_tmux_example tmux_no_terminal_def)
  have "\<And>tr' argv. argv \<in> set (session_commands example_session ''/proj'')
          \<Longrightarrow> run_tmux (example_world example_tree tmux_fresh_no_terminal) tr' argv = None"
    by (auto simp add: example_commands run_tmux_example tmux_fresh_no_terminal_def)
  then have created: "createSession (example_world example_tree tmux_fresh_no_terminal)
                        example_session ''/proj'' tr =
                      (None, tr @ map Exec (session_commands example_session ''/proj''))" for tr
    by (rule createSession_succeeds)
  have fresh: "attach_or_create (example_world example_tree tmux_fresh_no_terminal)
          example_session ''/proj'' tr =
     (1, tr @ [Exec [''tmux'', ''has-session'', ''-t'', ''s'']]
           @ map Exec (session_commands example_session ''/proj'')
           @ [Print (''Attempting to attach to session: s'' @ [newline]),
              ExecAttached [''tmux'', ''attach-session'', ''-t'', ''s''] ''TERM=xterm-256color'',
              Print (''Error attaching to session: failed to attach to session: exit status 1''
                     @ [newline])])" for tr
    by (simp add: attach_or_create_def sessionExists_def Run_def attachSession_def Let_def name
        created run_tmux_example tmux_fresh_no_terminal_def)
  show ?thesis
    by (simp add: main_example running fresh)
qed

section \<open>Failures while creating a session\<close>

text \<open>A run of commands that fails has stopped at the command that failed: nothing is run
  after it, and nothing is undone.\<close>

lemma run_all_fails:
  assumes "fst (run_all w cmds tr) = Some e"
  shows "\<exists>k < length cmds. snd (run_all w cmds tr) = tr @ map Exec (take (Suc k) cmds)
             \<and> run_tmux w (tr @ map Exec (take k cmds)) (cmds ! k) = Some e"
  using assms
proof (induction cmds arbitrary: tr)
  case Nil
  then show ?case by simp
next
  case (Cons argv cmds)
  show ?case
  proof (cases "run_tmux w tr argv")
    case (Some e')
    with Cons.prems have "snd (run_all w (argv # cmds) tr) = tr @ map Exec (take (Suc 0) (argv # cmds))
        \<and> run_tmux w (tr @ map Exec (take 0 (argv # cmds))) ((argv # cmds) ! 0) = Some e"
      by (simp add: Run_def)
    then show ?thesis by blast
  next
    case None
    with Cons.prems have "fst (run_all w cmds (tr @ [Exec argv])) = Some e"
      by (simp add: Run_def)
    from Cons.IH [OF this] obtain k where k: "k < length cmds"
      "snd (run_all w cmds (tr @ [Exec argv])) = (tr @ [Exec argv]) @ map Exec (take (Suc k) cmds)"
      "run_tmux w ((tr @ [Exec argv]) @ map Exec (take k cmds)) (cmds ! k) = Some e"
      by blast
    with None have "Suc k < length (argv # cmds)
        \<and> snd (run_all w (argv # cmds) tr) = tr @ map Exec (take (Suc (Suc k)) (argv # cmds))
        \<and> run_tmux w (tr @ map Exec (take (Suc k) (argv # cmds))) ((argv # cmds) ! Suc k) = Some e"
      by (simp add: Run_def)
    then show ?thesis by blast
  qed
qed

lemma createSession_stops_at_failure:
  assumes "fst (createSession w session basePath tr) \<noteq> None"
  shows "\<exists>k < length (session_commands session basePath).
           snd (createSession w session basePath tr) =
             tr @ map Exec (take (Suc k) (session_commands session basePath))
           \<and> run_tmux w (tr @ map Exec (take k (session_commands session basePath)))
                 (session_commands session basePath ! k) \<noteq> None"
proof -
  from assms createSession_run_all [of w session basePath tr]
  obtain e where "fst (run_all w (session_commands session basePath) tr) = Some e"
    by (cases "fst (run_all w (session_commands session basePath) tr)") auto
  from run_all_fails [OF this] createSession_run_all [of w session basePath tr]
  show ?thesis by auto
qed

text \<open>The error of a failed send-keys for a command of the descriptor names the window.\<close>

lemma send_commands_error:
  "fst (send_commands w target i cmds tr) = Some err
     \<Longrightarrow> \<exists>e. err = ''failed to send command to window '' @ itoa i @ '': '' @ e"
  by (induction cmds arbitrary: tr) (auto simp add: Run_def split: option.splits)



text \<open>
  Claim C7, where the code departs from it. The error of a failed rename-window (window 0)
  and the error of a failed new-window (window 1) are the same text: it does not hold the
  index of the window. In both runs nothing is sent after the failed command.
\<close>

theorem create_window_error_has_no_index:
  "createSession (example_world example_tree tmux_base_1) two_windows ''/proj'' [] =
     (Some ''failed to create window: exit status 1'',
      [Exec [''tmux'', ''new-session'', ''-d'', ''-s'', ''s''],
       Exec [''tmux'', ''rename-window'', ''-t'', ''s:0'', ''w1'']])
   \<and> createSession (example_world example_tree tmux_no_new_window) two_windows ''/proj'' [] =
     (Some ''failed to create window: exit status 1'',
      [Exec [''tmux'', ''new-session'', ''-d'', ''-s'', ''s''],
       Exec [''tmux'', ''rename-window'', ''-t'', ''s:0'', ''w1''],
       Exec [''tmux'', ''send-keys'', ''-t'', ''s:0'', ''cd /proj'', ''C-m''],
       Exec [''tmux'', ''send-keys'', ''-t'', ''s:0'', ''echo hi'', ''C-m''],
       Exec [''tmux'', ''new-window'', ''-t'', ''s'', ''-n'', ''w2'']])"
  using itoa_1
  by (simp add: createSession_def Run_def run_tmux_example tmux_base_1_def
      tmux_no_new_window_def two_windows_def itoa_0 Let_def)

section \<open>The settings file\<close>

lemma space_runes_heads: "list_all (\<lambda>r. r \<noteq> [] \<and> \<not> plain (hd r) \<and> \<not> plain (last r)) space_runes"
  by (simp add: space_runes_def plain_def)

lemma HasPrefix_hd: "HasPrefix (c # cs) r \<Longrightarrow> r \<noteq> [] \<Longrightarrow> hd r = c"
  by (cases r) (simp_all add: HasPrefix_def)

lemma no_rune_front: "plain c \<Longrightarrow> filter (HasPrefix (c # cs)) space_runes = []"
  using space_runes_heads HasPrefix_hd [of c cs]
  by (auto simp add: filter_empty_conv list_all_iff)

lemma no_rune_back: "plain c \<Longrightarrow> filter (HasPrefix (c # cs)) (map rev space_runes) = []"
proof -
  assume c: "plain c"
  have "\<not> HasPrefix (c # cs) (rev r)" if "r \<in> set space_runes" for r
  proof
    assume p: "HasPrefix (c # cs) (rev r)"
    from that space_runes_heads have r: "r \<noteq> []" "\<not> plain (last r)"
      by (simp_all add: list_all_iff)
    then have "hd (rev r) = c" using p HasPrefix_hd [of c cs "rev r"] by simp
    with r c show False by (simp add: hd_rev)
  qed
  then show ?thesis by (auto simp add: filter_empty_conv)
qed

lemma trim_front_spaces:
  "list_all asciiSpace l \<Longrightarrow> trim_front runes (l @ s) = trim_front runes s"
  by (induction l) simp_all

lemma trim_front_plain_front: "plain c \<Longrightarrow> trim_front space_runes (c # cs) = c # cs"
  by (simp add: no_rune_front) (simp add: plain_def)

lemma trim_front_plain_back: "plain c \<Longrightarrow> trim_front (map rev space_runes) (c # cs) = c # cs"
  by (simp add: no_rune_back) (simp add: plain_def)

lemma TrimSpace_both_sides:
  assumes "list_all asciiSpace l" "list_all asciiSpace r"
    and "core \<noteq> []" "plain (hd core)" "plain (last core)"
  shows "TrimSpace (l @ core @ r) = core"
proof -
  obtain c cs where c: "core = c # cs" using assms(3) by (cases core) auto
  have "trim_front space_runes (l @ (c # cs @ r)) = c # cs @ r"
    using assms(1,4) c by (simp only: trim_front_spaces trim_front_plain_front list.sel)
  then have front: "trim_front space_runes (l @ core @ r) = core @ r"
    using c by simp
  obtain d ds where d: "rev core = d # ds" using assms(3) by (cases "rev core") auto
  have "hd (rev core) = last core" using assms(3) by (simp add: hd_rev)
  with d assms(5) have pd: "plain d" by simp
  have "list_all asciiSpace (rev r)" using assms(2) by (simp add: list_all_iff)
  then have "trim_front (map rev space_runes) (rev r @ (d # ds)) = d # ds"
    using pd by (simp only: trim_front_spaces trim_front_plain_back)
  then have "trim_front (map rev space_runes) (rev (core @ r)) = rev core"
    using d by simp
  with front show ?thesis by (simp add: TrimSpace_def)
qed

lemma config_line_skipped:
  "line = [] \<or> HasPrefix line ''#'' \<or> CHR ''='' \<notin> set line \<Longrightarrow> config_line config line = config"
  by (auto simp add: config_line_def SplitN2_def)

lemma config_line_entry:
  assumes "CHR ''='' \<notin> set key" "\<not> HasPrefix (key @ ''='' @ val) ''#''"
  shows "config_line config (key @ ''='' @ val) = config(key \<mapsto> TrimSpace val)"
proof -
  have "takeWhile (\<lambda>c. c \<noteq> CHR ''='') (key @ CHR ''='' # val) = key"
    using assms(1) by (induction key) auto
  moreover have "dropWhile (\<lambda>c. c \<noteq> CHR ''='') (key @ CHR ''='' # val) = CHR ''='' # val"
    using assms(1) by (induction key) auto
  ultimately show ?thesis
    using assms(2) by (simp add: config_line_def SplitN2_def)
qed

lemma main_without_root:
  assumes "\<not> (length (os_Args w) > 1 \<and> os_Args w ! 1 = ''init'')" "ReadConfig w = Inr config"
    "config ''TP_DIRECTORY'' = None"
  shows "main w = (1, [Print (''TP_DIRECTORY is not set in the configuration'' @ [newline])])"
  unfolding main_def by (simp only: assms if_False sum.case option.case simp_thms)

lemma main_invalid_root:
  assumes "\<not> (length (os_Args w) > 1 \<and> os_Args w ! 1 = ''init'')" "ReadConfig w = Inr config"
    "config ''TP_DIRECTORY'' = Some root" "os_Stat w root \<noteq> Inr True"
  shows "main w = (1, [Print (''TP_DIRECTORY is not a valid directory ('' @ root @ '')''
                              @ [newline])])"
  unfolding main_def by (simp only: assms if_False if_True sum.case option.case simp_thms)

lemma ReadConfig_with_settings:
  "ReadConfig (world_with_settings data) = Inr (config_of_data data)"
  by (simp add: ReadConfig_def world_with_settings_def example_world_def)

lemma world_with_settings_args:
  "\<not> (length (os_Args (world_with_settings data)) > 1
       \<and> os_Args (world_with_settings data) ! 1 = ''init'')"
  by (simp add: world_with_settings_def example_world_def)

lemma world_with_settings_stat:
  "os_Stat (world_with_settings data) ''/nowhere'' \<noteq> Inr True"
  by (simp add: world_with_settings_def example_world_def)

lemma settings_without_root: "config_of_data ''# nothing'' ''TP_DIRECTORY'' = None"
  by (simp add: config_of_data_def config_line_def newline_def HasPrefix_def)

lemma settings_nowhere: "config_of_data ''TP_DIRECTORY=/nowhere'' ''TP_DIRECTORY'' = Some ''/nowhere''"
  by (simp add: config_of_data_def config_line_def newline_def HasPrefix_def
      SplitN2_def TrimSpace_def space_runes_def asciiSpace_def Let_def)

text \<open>
  Claim C9, amended. The settings are read line by line (split at line feeds). An empty
  line, a line starting with \<^verbatim>\<open>#\<close> and a line without \<^verbatim>\<open>=\<close> store nothing. Any other line is
  split at its first \<^verbatim>\<open>=\<close>: the text before it is the key, as it stands, and the text after
  it, with the white space removed at both ends, is the value (so white space around a value
  that starts and ends with a plain character disappears on the left as on the right). The
  key \<^verbatim>\<open>TP_DIRECTORY\<close> is the one \<^verbatim>\<open>main\<close> looks up: without it the run ends, and its value
  is the directory that must exist.
\<close>

theorem settings_lines:
  "config_of_data data = foldl config_line Map.empty (Split newline data)
   \<and> (line = [] \<or> HasPrefix line ''#'' \<or> CHR ''='' \<notin> set line
        \<longrightarrow> config_line config line = config)
   \<and> (CHR ''='' \<notin> set key \<longrightarrow> \<not> HasPrefix (key @ ''='' @ val) ''#''
        \<longrightarrow> config_line config (key @ ''='' @ val) = config(key \<mapsto> TrimSpace val))
   \<and> (list_all asciiSpace l \<longrightarrow> list_all asciiSpace r \<longrightarrow> core \<noteq> []
        \<longrightarrow> plain (hd core) \<longrightarrow> plain (last core) \<longrightarrow> TrimSpace (l @ core @ r) = core)
   \<and> (\<not> (length (os_Args w) > 1 \<and> os_Args w ! 1 = ''init'') \<longrightarrow> ReadConfig w = Inr settings
        \<longrightarrow> settings ''TP_DIRECTORY'' = None
        \<longrightarrow> main w = (1, [Print (''TP_DIRECTORY is not set in the configuration''
                                  @ [newline])]))
   \<and> (\<not> (length (os_Args w) > 1 \<and> os_Args w ! 1 = ''init'') \<longrightarrow> ReadConfig w = Inr settings
        \<longrightarrow> settings ''TP_DIRECTORY'' = Some root \<longrightarrow> os_Stat w root \<noteq> Inr True
        \<longrightarrow> main w = (1, [Print (''TP_DIRECTORY is not a valid directory ('' @ root @ '')''
                                  @ [newline])]))"
  using config_line_skipped [of line config] config_line_entry [of key val config]
    TrimSpace_both_sides [of l r core] main_without_root [of w settings]
    main_invalid_root [of w settings root]
  by (simp only: config_of_data_def simp_thms) blast

theorem settings_lines_witness:
  "config_line Map.empty ''# comment'' = Map.empty
   \<and> config_line Map.empty ''TP_DIRECTORY=  /srv  '' ''TP_DIRECTORY'' = Some ''/srv''
   \<and> TrimSpace (''  '' @ ''/srv'' @ ''  '') = ''/srv''
   \<and> main (world_with_settings ''# nothing'') =
       (1, [Print (''TP_DIRECTORY is not set in the configuration'' @ [newline])])
   \<and> main (world_with_settings ''TP_DIRECTORY=/nowhere'') =
       (1, [Print (''TP_DIRECTORY is not a valid directory (/nowhere)'' @ [newline])])"
proof -
  have spaces: "list_all asciiSpace ''  ''"
    by (simp add: asciiSpace_def)
  have core: "''/srv'' \<noteq> []" "plain (hd ''/srv'')" "plain (last ''/srv'')"
    by (simp_all add: plain_def asciiSpace_def)
  have key: "CHR ''='' \<notin> set ''TP_DIRECTORY''"
    "\<not> HasPrefix (''TP_DIRECTORY'' @ ''='' @ ''  /srv  '') ''#''"
    by (simp_all add: HasPrefix_def)
  have comment: "HasPrefix ''# comment'' ''#''"
    by (simp add: HasPrefix_def)
  note unset =
    settings_lines [where data = "[]" and line = "''# comment''" and config = Map.empty
      and key = "''TP_DIRECTORY''" and val = "''  /srv  ''" and l = "''  ''" and r = "''  ''"
      and core = "''/srv''" and w = "world_with_settings ''# nothing''"
      and settings = "config_of_data ''# nothing''" and root = "[]"]
  note invalid =
    settings_lines [where data = "[]" and line = "''# comment''" and config = Map.empty
      and key = "''TP_DIRECTORY''" and val = "''  /srv  ''" and l = "''  ''" and r = "''  ''"
      and core = "''/srv''" and w = "world_with_settings ''TP_DIRECTORY=/nowhere''"
      and settings = "config_of_data ''TP_DIRECTORY=/nowhere''" and root = "''/nowhere''"]
  have trim: "TrimSpace ''  /srv  '' = ''/srv''"
    using unset spaces core by simp
  have line: "config_line Map.empty ''TP_DIRECTORY=  /srv  '' =
                Map.empty(''TP_DIRECTORY'' \<mapsto> TrimSpace ''  /srv  '')"
    using unset key by simp
  have skipped: "config_line Map.empty ''# comment'' = Map.empty"
    using unset comment by simp
  have no_root: "main (world_with_settings ''# nothing'') =
       (1, [Print (''TP_DIRECTORY is not set in the configuration'' @ [newline])])"
    using unset world_with_settings_args ReadConfig_with_settings settings_without_root
    by simp
  have bad_root: "main (world_with_settings ''TP_DIRECTORY=/nowhere'') =
       (1, [Print (''TP_DIRECTORY is not a valid directory (/nowhere)'' @ [newline])])"
    using invalid world_with_settings_args ReadConfig_with_settings settings_nowhere
      world_with_settings_stat
    by simp
  from trim line skipped no_root bad_root show ?thesis
    by simp
qed

text \<open>The claim as stated keeps the white space in front of a value; the code removes it.\<close>

theorem value_trimmed_counterexample:
  "config_of_data ''TP_DIRECTORY= /srv'' ''TP_DIRECTORY'' = Some ''/srv''
   \<and> config_of_data ''TP_DIRECTORY= /srv'' ''TP_DIRECTORY'' \<noteq> Some '' /srv''"
  by (simp add: config_of_data_def config_line_def newline_def HasPrefix_def
      SplitN2_def TrimSpace_def space_runes_def asciiSpace_def Let_def)

end
